theory Spec2Isabelle
  imports Main "HOL-Library.Word"
begin

section \<open>Finger slots and their names (src/src/device.c)\<close>

text \<open>
  \<open>FpFinger\<close> is libfprint's enumeration; the daemon uses it as a small unsigned
  integer (loop counter, list payload, hexadecimal file name), so it is a \<open>nat\<close> here.
  The enumerators are those of libfprint's header: \<open>FP_FINGER_UNKNOWN = 0\<close>, then the
  ten anatomical slots \<open>1..10\<close>, with \<open>FP_FINGER_FIRST\<close> and \<open>FP_FINGER_LAST\<close>
  aliases of the first and the last slot.
\<close>

type_synonym FpFinger = nat

definition FP_FINGER_UNKNOWN :: FpFinger where "FP_FINGER_UNKNOWN = 0"
definition FP_FINGER_LEFT_THUMB :: FpFinger where "FP_FINGER_LEFT_THUMB = 1"
definition FP_FINGER_LEFT_INDEX :: FpFinger where "FP_FINGER_LEFT_INDEX = 2"
definition FP_FINGER_LEFT_MIDDLE :: FpFinger where "FP_FINGER_LEFT_MIDDLE = 3"
definition FP_FINGER_LEFT_RING :: FpFinger where "FP_FINGER_LEFT_RING = 4"
definition FP_FINGER_LEFT_LITTLE :: FpFinger where "FP_FINGER_LEFT_LITTLE = 5"
definition FP_FINGER_RIGHT_THUMB :: FpFinger where "FP_FINGER_RIGHT_THUMB = 6"
definition FP_FINGER_RIGHT_INDEX :: FpFinger where "FP_FINGER_RIGHT_INDEX = 7"
definition FP_FINGER_RIGHT_MIDDLE :: FpFinger where "FP_FINGER_RIGHT_MIDDLE = 8"
definition FP_FINGER_RIGHT_RING :: FpFinger where "FP_FINGER_RIGHT_RING = 9"
definition FP_FINGER_RIGHT_LITTLE :: FpFinger where "FP_FINGER_RIGHT_LITTLE = 10"
definition FP_FINGER_FIRST :: FpFinger where "FP_FINGER_FIRST = 1"
definition FP_FINGER_LAST :: FpFinger where "FP_FINGER_LAST = 10"

lemmas FP_FINGER_defs =
  FP_FINGER_UNKNOWN_def FP_FINGER_LEFT_THUMB_def FP_FINGER_LEFT_INDEX_def
  FP_FINGER_LEFT_MIDDLE_def FP_FINGER_LEFT_RING_def FP_FINGER_LEFT_LITTLE_def
  FP_FINGER_RIGHT_THUMB_def FP_FINGER_RIGHT_INDEX_def FP_FINGER_RIGHT_MIDDLE_def
  FP_FINGER_RIGHT_RING_def FP_FINGER_RIGHT_LITTLE_def FP_FINGER_FIRST_def
  FP_FINGER_LAST_def

text \<open>The macro \<open>FP_FINGER_IS_VALID\<close> of libfprint: a slot between first and last.\<close>

definition FP_FINGER_IS_VALID :: "nat \<Rightarrow> bool" where
  "FP_FINGER_IS_VALID f = (FP_FINGER_FIRST \<le> f \<and> f \<le> FP_FINGER_LAST)"

text \<open>The table \<open>FINGERS_NAMES\<close>, indexed by the enumerator.\<close>

definition FINGERS_NAMES :: "string list" where
  "FINGERS_NAMES =
     [''unknown'',
      ''left-thumb'',
      ''left-index-finger'',
      ''left-middle-finger'',
      ''left-ring-finger'',
      ''left-little-finger'',
      ''right-thumb'',
      ''right-index-finger'',
      ''right-middle-finger'',
      ''right-ring-finger'',
      ''right-little-finger'']"

text \<open>
  \<open>fp_finger_to_name\<close>: \<open>"any"\<close> for the unknown slot, \<open>NULL\<close> (here \<open>None\<close>) for a
  value that is no slot, the table's entry otherwise.
\<close>

definition fp_finger_to_name :: "FpFinger \<Rightarrow> string option" where
  "fp_finger_to_name finger =
     (if finger = FP_FINGER_UNKNOWN then Some ''any''
      else if \<not> FP_FINGER_IS_VALID finger then None
      else Some (FINGERS_NAMES ! finger))"

text \<open>
  \<open>finger_name_to_fp_finger\<close>. The argument is a C string pointer, \<open>None\<close> being
  \<open>NULL\<close>. The \<open>for\<close> loop from \<open>FP_FINGER_FIRST\<close> to \<open>FP_FINGER_LAST\<close> returns the
  first index whose table entry equals the name; it is the search \<open>find\<close> over that
  range of indices. Falling out of the loop returns the unknown slot.
\<close>

definition finger_name_to_fp_finger :: "string option \<Rightarrow> FpFinger" where
  "finger_name_to_fp_finger finger_name =
     (case finger_name of
        None \<Rightarrow> FP_FINGER_UNKNOWN
      | Some name \<Rightarrow>
          if name = [] \<or> name = ''any'' then FP_FINGER_UNKNOWN
          else (case find (\<lambda>i. name = FINGERS_NAMES ! i)
                       [FP_FINGER_FIRST ..< Suc FP_FINGER_LAST] of
                  Some i \<Rightarrow> i
                | None \<Rightarrow> FP_FINGER_UNKNOWN))"

section \<open>Errors, actions, claim states\<close>

text \<open>The enumeration \<open>FprintError\<close> of src/src/fprintd.h.\<close>

datatype FprintError =
    FPRINT_ERROR_CLAIM_DEVICE
  | FPRINT_ERROR_ALREADY_IN_USE
  | FPRINT_ERROR_INTERNAL
  | FPRINT_ERROR_PERMISSION_DENIED
  | FPRINT_ERROR_NO_ENROLLED_PRINTS
  | FPRINT_ERROR_FINGER_ALREADY_ENROLLED
  | FPRINT_ERROR_NO_ACTION_IN_PROGRESS
  | FPRINT_ERROR_INVALID_FINGERNAME
  | FPRINT_ERROR_NO_SUCH_DEVICE
  | FPRINT_ERROR_PRINTS_NOT_DELETED
  | FPRINT_ERROR_PRINTS_NOT_DELETED_FROM_DEVICE

datatype FprintDeviceAction =
    ACTION_NONE
  | ACTION_IDENTIFY
  | ACTION_VERIFY
  | ACTION_ENROLL
  | ACTION_OPEN
  | ACTION_CLOSE
  | ACTION_DELETE

datatype FprintDeviceClaimState =
    STATE_CLAIMED
  | STATE_UNCLAIMED
  | STATE_AUTO_CLAIM
  | STATE_ANYTIME

text \<open>
  The errors the driver layer hands to the daemon (\<open>GError\<close> values), by the domains
  and codes the daemon tests for: the retry domain with its codes, the device error
  domain with the codes the daemon distinguishes, cancellation, and any other error.
\<close>

datatype FpDeviceRetry =
    FP_DEVICE_RETRY_GENERAL
  | FP_DEVICE_RETRY_TOO_SHORT
  | FP_DEVICE_RETRY_CENTER_FINGER
  | FP_DEVICE_RETRY_REMOVE_FINGER

datatype FpDeviceError =
    FP_DEVICE_ERROR_GENERAL
  | FP_DEVICE_ERROR_PROTO
  | FP_DEVICE_ERROR_DATA_NOT_FOUND
  | FP_DEVICE_ERROR_DATA_FULL

datatype GError =
    FP_DEVICE_RETRY FpDeviceRetry
  | FP_DEVICE_ERROR FpDeviceError
  | G_IO_ERROR_CANCELLED
  | OTHER_ERROR

text \<open>A method call on the bus: the fields of \<open>GDBusMethodInvocation\<close> the daemon reads.\<close>

record invocation =
  method_name :: string
  inv_sender :: string

text \<open>\<open>SessionData\<close>; the reference count is memory management and is left out.\<close>

record SessionData =
  session_invocation :: "invocation option"
  sender :: string
  username :: string
  verify_status_reported :: bool

section \<open>Prints, the reader, the template store (interfaces of the collaborators)\<close>

text \<open>
  A print template (\<open>FpPrint\<close>) as the daemon sees it: the metadata it reads through
  libfprint's getters and an opaque payload. \<open>obj\<close> is the identity of the object
  (its address), under which per-object data is attached. \<open>print_username\<close> is a C
  string pointer (\<open>None\<close> is \<open>NULL\<close>). \<open>enroll_date\<close> is \<open>Some j\<close> when the print has
  an enrollment date that is valid, \<open>j\<close> being its Julian day (a \<open>guint32\<close>), and
  \<open>None\<close> when the date is missing or invalid.
\<close>

record fp_print =
  obj :: nat
  print_driver :: string
  print_device_id :: string
  print_username :: "string option"
  print_finger :: FpFinger
  enroll_date :: "32 word option"
  device_stored :: bool
  print_data :: string

text \<open>The reader (\<open>FpDevice\<close>): identity and the feature flags the daemon tests.\<close>

record FpDevice =
  dev_name :: string
  dev_driver :: string
  dev_device_id :: string
  FP_DEVICE_FEATURE_IDENTIFY :: bool
  FP_DEVICE_FEATURE_STORAGE :: bool
  FP_DEVICE_FEATURE_STORAGE_LIST :: bool

text \<open>
  The synchronous driver calls the daemon makes, over the state \<open>'d\<close> of the reader and
  its on-device storage. They belong to libfprint, so they are parameters of the model.
  A call that reports through a \<open>GError\<close> returns the error as a value.
\<close>

record 'd libfprint =
  fp_device_list_prints_sync :: "'d \<Rightarrow> GError + fp_print list"
  fp_device_delete_print_sync :: "'d \<Rightarrow> fp_print \<Rightarrow> GError option \<times> 'd"
  fp_device_clear_storage_sync :: "'d \<Rightarrow> GError option \<times> 'd"
  fp_device_is_open :: "'d \<Rightarrow> bool"
  fp_device_open_sync :: "'d \<Rightarrow> 'd"
  fp_device_close_sync :: "'d \<Rightarrow> 'd"
  fp_print_equal :: "fp_print \<Rightarrow> fp_print \<Rightarrow> bool"

text \<open>
  The dispatch table \<open>struct storage\<close> of src/src/storage.h, over the state \<open>'h\<close> of
  the host-side store. \<open>print_data_load\<close> returns its result code and the print it
  stored through the out parameter (\<open>None\<close>: the parameter was left \<open>NULL\<close>). User
  names are C string pointers.
\<close>

record 'h storage =
  print_data_save :: "'h \<Rightarrow> fp_print \<Rightarrow> int \<times> 'h"
  print_data_load :: "'h \<Rightarrow> FpDevice \<Rightarrow> FpFinger \<Rightarrow> string option \<Rightarrow> int \<times> fp_print option"
  print_data_delete :: "'h \<Rightarrow> FpDevice \<Rightarrow> FpFinger \<Rightarrow> string option \<Rightarrow> int \<times> 'h"
  discover_prints :: "'h \<Rightarrow> FpDevice \<Rightarrow> string option \<Rightarrow> FpFinger list"
  discover_users :: "'h \<Rightarrow> string list"

section \<open>The device object (src/src/device.c)\<close>

text \<open>
  What a handler or callback sends out, in order: signals, replies to method calls,
  warnings, and the asynchronous requests handed to the driver or the main loop
  (starting an operation, cancelling the current cancellable, arming a timer).
  Debug messages are not recorded.
\<close>

datatype emission =
    SIGNAL_VERIFY_STATUS string bool
  | SIGNAL_VERIFY_FINGER_SELECTED "string option"
  | SIGNAL_ENROLL_STATUS string bool
  | DBUS_COMPLETE string invocation
  | DBUS_RETURN_GERROR invocation FprintError
  | G_WARNING string
  | FP_DEVICE_OPEN
  | FP_DEVICE_CLOSE
  | FP_DEVICE_VERIFY "fp_print option"
  | FP_DEVICE_IDENTIFY "fp_print list option"
  | FP_DEVICE_IDENTIFY_FOR_ENROLL "fp_print list"
  | FP_DEVICE_ENROLL fp_print
  | G_TIMEOUT_ADD_SECONDS nat
  | G_CANCELLABLE_CANCEL
  | G_NOTIFY_BUSY

text \<open>
  \<open>FprintDevicePrivate\<close>. \<open>current_cancellable\<close> is \<open>None\<close> when the pointer is
  \<open>NULL\<close>, and \<open>Some c\<close> for a cancellable whose cancelled flag is \<open>c\<close>.
  \<open>verify_stop_wait_timeout_id\<close> is \<open>None\<close> for the id 0 (no timer) and \<open>Some n\<close> while
  the timer source is armed, \<open>n\<close> being the interval in seconds it was armed with.
  \<open>clients\<close> holds the keys of the hash table of watched senders. \<open>emitted\<close> is the
  record of what the object has sent out so far.
\<close>

record FprintDevicePrivate =
  dev_id :: nat
  dev :: FpDevice
  session :: "SessionData option"
  local_storage_checked :: bool
  verify_stop_wait_timeout_id :: "nat option"
  clients :: "string list"
  verify_data :: "fp_print option"
  identify_data :: "fp_print list option"
  enroll_data :: FpFinger
  current_action :: FprintDeviceAction
  current_cancellable :: "bool option"
  current_cancel_invocation :: "invocation option"
  emitted :: "emission list"

definition VERIFY_STOP_DEVICE_WAIT :: nat where
  "VERIFY_STOP_DEVICE_WAIT = 1"

definition emit :: "emission \<Rightarrow> FprintDevicePrivate \<Rightarrow> FprintDevicePrivate" where
  "emit x priv = priv\<lparr>emitted := emitted priv @ [x]\<rparr>"

definition g_cancellable_is_cancelled :: "bool option \<Rightarrow> bool" where
  "g_cancellable_is_cancelled c = (case c of None \<Rightarrow> False | Some b \<Rightarrow> b)"

definition verify_result_to_name :: "bool \<Rightarrow> GError option \<Rightarrow> string" where
  "verify_result_to_name match error =
     (case error of
        None \<Rightarrow> if match then ''verify-match'' else ''verify-no-match''
      | Some (FP_DEVICE_RETRY code) \<Rightarrow>
          (case code of
             FP_DEVICE_RETRY_TOO_SHORT \<Rightarrow> ''verify-swipe-too-short''
           | FP_DEVICE_RETRY_CENTER_FINGER \<Rightarrow> ''verify-finger-not-centered''
           | FP_DEVICE_RETRY_REMOVE_FINGER \<Rightarrow> ''verify-remove-and-retry''
           | FP_DEVICE_RETRY_GENERAL \<Rightarrow> ''verify-retry-scan'')
      | Some e \<Rightarrow>
          if e = FP_DEVICE_ERROR FP_DEVICE_ERROR_PROTO then ''verify-disconnected''
          else if e = G_IO_ERROR_CANCELLED \<or> e = FP_DEVICE_ERROR FP_DEVICE_ERROR_DATA_NOT_FOUND
          then ''verify-no-match''
          else ''verify-unknown-error'')"

definition enroll_result_to_name :: "bool \<Rightarrow> bool \<Rightarrow> GError option \<Rightarrow> string" where
  "enroll_result_to_name completed enrolled error =
     (case error of
        None \<Rightarrow>
          if \<not> completed then ''enroll-stage-passed''
          else if enrolled then ''enroll-completed''
          else ''enroll-failed''
      | Some (FP_DEVICE_RETRY code) \<Rightarrow>
          (case code of
             FP_DEVICE_RETRY_TOO_SHORT \<Rightarrow> ''enroll-swipe-too-short''
           | FP_DEVICE_RETRY_CENTER_FINGER \<Rightarrow> ''enroll-finger-not-centered''
           | FP_DEVICE_RETRY_REMOVE_FINGER \<Rightarrow> ''enroll-remove-and-retry''
           | FP_DEVICE_RETRY_GENERAL \<Rightarrow> ''enroll-retry-scan'')
      | Some e \<Rightarrow>
          if e = FP_DEVICE_ERROR FP_DEVICE_ERROR_PROTO then ''enroll-disconnected''
          else if e = FP_DEVICE_ERROR FP_DEVICE_ERROR_DATA_FULL then ''enroll-data-full''
          else if e = G_IO_ERROR_CANCELLED then ''enroll-failed''
          else ''enroll-unknown-error'')"

text \<open>The test \<open>error->domain == FP_DEVICE_RETRY\<close> on a non-\<open>NULL\<close> error.\<close>

definition is_retry :: "GError \<Rightarrow> bool" where
  "is_retry e = (case e of FP_DEVICE_RETRY _ \<Rightarrow> True | _ \<Rightarrow> False)"

definition get_claim_state_for_invocation :: "invocation \<Rightarrow> FprintDeviceClaimState" where
  "get_claim_state_for_invocation invoc =
     (if method_name invoc = ''Claim'' then STATE_UNCLAIMED
      else if method_name invoc = ''DeleteEnrolledFingers'' then STATE_AUTO_CLAIM
      else if method_name invoc = ''ListEnrolledFingers'' then STATE_ANYTIME
      else STATE_CLAIMED)"

text \<open>
  \<open>_fprint_device_check_claimed\<close>: \<open>None\<close> is the return value \<open>TRUE\<close>, \<open>Some e\<close> is
  \<open>FALSE\<close> with the error set to \<open>e\<close>.
\<close>

definition fprint_device_check_claimed ::
  "FprintDevicePrivate \<Rightarrow> invocation \<Rightarrow> FprintError option" where
  "fprint_device_check_claimed priv invoc =
     (let requested_state = get_claim_state_for_invocation invoc in
      if requested_state = STATE_ANYTIME then None
      else
        let requested_state =
              (if requested_state = STATE_AUTO_CLAIM
               then (if session priv \<noteq> None then STATE_CLAIMED else STATE_UNCLAIMED)
               else requested_state)
        in
        if requested_state = STATE_UNCLAIMED then
          (if session priv = None then None else Some FPRINT_ERROR_ALREADY_IN_USE)
        else
          (case session priv of
             None \<Rightarrow> Some FPRINT_ERROR_CLAIM_DEVICE
           | Some s \<Rightarrow>
               if inv_sender invoc \<noteq> sender s \<or> session_invocation s \<noteq> None
               then Some FPRINT_ERROR_ALREADY_IN_USE
               else None))"

definition fprint_device_add_client :: "FprintDevicePrivate \<Rightarrow> string \<Rightarrow> FprintDevicePrivate" where
  "fprint_device_add_client priv sndr =
     (if sndr \<in> set (clients priv) then priv
      else emit G_NOTIFY_BUSY (priv\<lparr>clients := clients priv @ [sndr]\<rparr>))"

text \<open>
  \<open>fprint_device_claim\<close>. \<open>user\<close> is the name the authorization step attached to the
  invocation (\<open>None\<close> when nothing is attached); a failed \<open>g_assert\<close> aborts the
  process, which is the result \<open>None\<close>.
\<close>

definition fprint_device_claim ::
  "FprintDevicePrivate \<Rightarrow> invocation \<Rightarrow> string option \<Rightarrow> string \<Rightarrow> FprintDevicePrivate option" where
  "fprint_device_claim priv invoc user uname =
     (case fprint_device_check_claimed priv invoc of
        Some e \<Rightarrow> Some (emit (DBUS_RETURN_GERROR invoc e) priv)
      | None \<Rightarrow>
          (case user of
             None \<Rightarrow> None
           | Some u \<Rightarrow>
               if \<not> (uname = [] \<or> u = uname) then None
               else
                 let priv = fprint_device_add_client priv (inv_sender invoc);
                     priv = priv\<lparr>session := Some \<lparr>session_invocation = Some invoc,
                                                  sender = inv_sender invoc,
                                                  username = u,
                                                  verify_status_reported = False\<rparr>\<rparr>;
                     priv = priv\<lparr>current_action := ACTION_OPEN\<rparr>
                 in Some (emit FP_DEVICE_OPEN priv)))"

definition can_start_action :: "FprintDevicePrivate \<Rightarrow> FprintError option" where
  "can_start_action priv =
     (case current_action priv of
        ACTION_NONE \<Rightarrow> None
      | _ \<Rightarrow> Some FPRINT_ERROR_ALREADY_IN_USE)"

definition can_stop_action ::
  "FprintDevicePrivate \<Rightarrow> FprintDeviceAction \<Rightarrow> FprintError option" where
  "can_stop_action priv action =
     (let action_matches =
            (if current_action priv = ACTION_IDENTIFY \<or> current_action priv = ACTION_VERIFY
             then (action = ACTION_VERIFY \<or> action = ACTION_IDENTIFY)
             else current_action priv = action)
      in
      if action_matches \<and> current_cancel_invocation priv = None then None
      else if current_action priv \<noteq> ACTION_NONE \<or> action_matches
      then Some FPRINT_ERROR_ALREADY_IN_USE
      else Some FPRINT_ERROR_NO_ACTION_IN_PROGRESS)"

text \<open>
  \<open>load_user_prints\<close>: for every finger the store discovers for the user, load the
  print and keep it when the load produced one. \<open>load_all_prints\<close> does so for every
  user the store discovers.
\<close>

definition load_user_prints ::
  "'h storage \<Rightarrow> 'h \<Rightarrow> FpDevice \<Rightarrow> string option \<Rightarrow> fp_print list" where
  "load_user_prints S h d user =
     List.map_filter (\<lambda>f. snd (print_data_load S h d f user)) (discover_prints S h d user)"

definition load_all_prints :: "'h storage \<Rightarrow> 'h \<Rightarrow> FpDevice \<Rightarrow> fp_print list" where
  "load_all_prints S h d =
     concat (map (\<lambda>u. load_user_prints S h d (Some u)) (discover_users S h))"

text \<open>
  \<open>report_verify_status\<close>. The session pointer is dereferenced only when \<open>done\<close> is
  true (in \<open>done && session->verify_status_reported\<close> and in the final assignment), so
  a final report on a device without a session is the result \<open>None\<close> (the process
  faults), while a retry report is emitted with or without a session.
\<close>

definition report_verify_status ::
  "FprintDevicePrivate \<Rightarrow> bool \<Rightarrow> GError option \<Rightarrow> FprintDevicePrivate option" where
  "report_verify_status priv match error =
     (let result = verify_result_to_name match error;
          done = (case error of None \<Rightarrow> True | Some e \<Rightarrow> \<not> is_retry e)
      in
      if \<not> done then Some (emit (SIGNAL_VERIFY_STATUS result done) priv)
      else
        case session priv of
          None \<Rightarrow> None
        | Some s \<Rightarrow>
            if verify_status_reported s then
              Some (if error \<noteq> Some G_IO_ERROR_CANCELLED
                    then emit (G_WARNING ''Verify status already reported. Ignoring'') priv
                    else priv)
            else
              let priv = emit (SIGNAL_VERIFY_STATUS result done) priv in
              Some (priv\<lparr>session := Some (s\<lparr>verify_status_reported := True\<rparr>)\<rparr>))"

text \<open>
  The loop of \<open>check_local_storage\<close> over the host prints: a host print with no equal
  print on the device is deleted from the store; a failed deletion is a warning.
\<close>

fun check_local_storage_loop ::
  "'h storage \<Rightarrow> 'd libfprint \<Rightarrow> fp_print list \<Rightarrow> fp_print list \<Rightarrow>
   FprintDevicePrivate \<times> 'h \<Rightarrow> FprintDevicePrivate \<times> 'h" where
  "check_local_storage_loop S L device_prints [] (priv, h) = (priv, h)"
| "check_local_storage_loop S L device_prints (print # host_prints) (priv, h) =
     (if list_ex (\<lambda>dp. fp_print_equal L dp print) device_prints
      then check_local_storage_loop S L device_prints host_prints (priv, h)
      else
        let (r, h') = print_data_delete S h (dev priv) (print_finger print) (print_username print)
        in check_local_storage_loop S L device_prints host_prints
             (if r = 0 then priv
              else emit (G_WARNING ''Error deleting finger that is unknown to device'') priv,
              h'))"

text \<open>
  \<open>check_local_storage\<close>, from the point where the latch is set: list the prints on
  the device, load all host prints, run the loop.
\<close>

definition check_local_storage_run ::
  "'h storage \<Rightarrow> 'd libfprint \<Rightarrow> 'd \<Rightarrow> FprintDevicePrivate \<times> 'h \<Rightarrow> FprintDevicePrivate \<times> 'h" where
  "check_local_storage_run S L d ph =
     (let priv = (fst ph)\<lparr>local_storage_checked := True\<rparr>; h = snd ph in
      case fp_device_list_prints_sync L d of
        Inl e \<Rightarrow> (emit (G_WARNING ''Failed to query prints'') priv, h)
      | Inr device_prints \<Rightarrow>
          check_local_storage_loop S L device_prints (load_all_prints S h (dev priv)) (priv, h))"

definition check_local_storage ::
  "'h storage \<Rightarrow> 'd libfprint \<Rightarrow> 'd \<Rightarrow> FprintDevicePrivate \<times> 'h \<Rightarrow> bool \<Rightarrow> GError option \<Rightarrow>
   FprintDevicePrivate \<times> 'h" where
  "check_local_storage S L d ph found_match error =
     (let priv = fst ph; h = snd ph in
      if \<not> (current_action priv = ACTION_VERIFY \<or> current_action priv = ACTION_IDENTIFY)
      then (emit (G_WARNING ''check_local_storage: assertion failed'') priv, h)
      else if \<not> FP_DEVICE_FEATURE_STORAGE_LIST (dev priv) then (priv, h)
      else if error = Some (FP_DEVICE_ERROR FP_DEVICE_ERROR_DATA_NOT_FOUND) then
        check_local_storage_run S L d
          (if local_storage_checked priv
           then emit (G_WARNING ''Device reported that a passed print did not exist'') priv
           else priv, h)
      else if error \<noteq> None \<or> local_storage_checked priv then (priv, h)
      else if \<not> found_match then check_local_storage_run S L d (priv, h)
      else (priv, h))"

text \<open>
  \<open>stoppable_action_completed\<close>. The \<open>default\<close> case of the switch is
  \<open>g_assert_not_reached\<close>, and the session pointer is dereferenced without a test in
  the two branches that reset the action: both are the result \<open>None\<close>.
\<close>

definition stoppable_action_completed :: "FprintDevicePrivate \<Rightarrow> FprintDevicePrivate option" where
  "stoppable_action_completed priv =
     (case current_cancel_invocation priv of
        Some invoc \<Rightarrow>
          (case (if current_action priv = ACTION_VERIFY \<or> current_action priv = ACTION_IDENTIFY
                 then Some (emit (DBUS_COMPLETE ''VerifyStop'' invoc) priv)
                 else if current_action priv = ACTION_ENROLL
                 then Some (emit (DBUS_COMPLETE ''EnrollStop'' invoc) priv)
                 else None) of
             None \<Rightarrow> None
           | Some priv \<Rightarrow>
               (case session priv of
                  None \<Rightarrow> None
                | Some s \<Rightarrow>
                    Some (priv\<lparr>current_cancel_invocation := None,
                               current_action := ACTION_NONE,
                               session := Some (s\<lparr>verify_status_reported := False\<rparr>),
                               current_cancellable := None\<rparr>)))
      | None \<Rightarrow>
          if g_cancellable_is_cancelled (current_cancellable priv) then
            (case session priv of
               None \<Rightarrow> None
             | Some s \<Rightarrow>
                 Some (priv\<lparr>current_action := ACTION_NONE,
                            session := Some (s\<lparr>verify_status_reported := False\<rparr>),
                            current_cancellable := None\<rparr>))
          else Some (priv\<lparr>current_cancellable := None\<rparr>))"

definition stoppable_action_stop ::
  "FprintDevicePrivate \<Rightarrow> invocation \<Rightarrow> FprintDevicePrivate option" where
  "stoppable_action_stop priv invoc =
     (if current_cancel_invocation priv \<noteq> None then None
      else
        let priv = priv\<lparr>current_cancel_invocation := Some invoc\<rparr> in
        case current_cancellable priv of
          Some c \<Rightarrow> Some (emit G_CANCELLABLE_CANCEL (priv\<lparr>current_cancellable := Some True\<rparr>))
        | None \<Rightarrow> stoppable_action_completed priv)"

text \<open>
  The callbacks the driver invokes. \<open>match_cb\<close> receives the matched print (\<open>None\<close>
  for \<open>NULL\<close>) and an error that must be absent or a retry error (\<open>g_assert_true\<close>).
\<close>

definition match_cb ::
  "FprintDevicePrivate \<Rightarrow> fp_print option \<Rightarrow> GError option \<Rightarrow> FprintDevicePrivate option" where
  "match_cb priv match error =
     (if \<not> (case error of None \<Rightarrow> True | Some e \<Rightarrow> is_retry e) then None
      else
        let cancelled = g_cancellable_is_cancelled (current_cancellable priv);
            matched = (match \<noteq> None \<and> \<not> cancelled)
        in report_verify_status priv matched error)"

text \<open>
  \<open>verify_cb\<close> and \<open>identify_cb\<close>, given what the driver's finish call returned: the
  match and the error. A retry error restarts the operation with the stored target
  or gallery; any other outcome clears it, reports an error that was returned, runs
  the reconciliation of the local storage and completes the action.
\<close>

definition verify_cb ::
  "'h storage \<Rightarrow> 'd libfprint \<Rightarrow> 'd \<Rightarrow> FprintDevicePrivate \<times> 'h \<Rightarrow> bool \<Rightarrow> GError option \<Rightarrow>
   (FprintDevicePrivate \<times> 'h) option" where
  "verify_cb S L d ph match error =
     (let priv = fst ph; h = snd ph in
      if (case error of None \<Rightarrow> False | Some e \<Rightarrow> is_retry e)
      then Some (emit (FP_DEVICE_VERIFY (verify_data priv)) priv, h)
      else
        let priv = priv\<lparr>verify_data := None\<rparr> in
        case (case error of
                None \<Rightarrow> Some priv
              | Some e \<Rightarrow>
                  (case report_verify_status priv False error of
                     None \<Rightarrow> None
                   | Some priv \<Rightarrow>
                       Some (if e \<noteq> G_IO_ERROR_CANCELLED
                             then emit (G_WARNING ''Device reported an error during verify'') priv
                             else priv))) of
          None \<Rightarrow> None
        | Some priv \<Rightarrow>
            let (priv, h) = check_local_storage S L d (priv, h) match error in
            (case stoppable_action_completed priv of
               None \<Rightarrow> None
             | Some priv \<Rightarrow> Some (priv, h)))"

definition identify_cb ::
  "'h storage \<Rightarrow> 'd libfprint \<Rightarrow> 'd \<Rightarrow> FprintDevicePrivate \<times> 'h \<Rightarrow> fp_print option \<Rightarrow>
   GError option \<Rightarrow> (FprintDevicePrivate \<times> 'h) option" where
  "identify_cb S L d ph match error =
     (let priv = fst ph; h = snd ph in
      if (case error of None \<Rightarrow> False | Some e \<Rightarrow> is_retry e)
      then Some (emit (FP_DEVICE_IDENTIFY (identify_data priv)) priv, h)
      else
        let priv = priv\<lparr>identify_data := None\<rparr> in
        case (case error of
                None \<Rightarrow> Some priv
              | Some e \<Rightarrow>
                  (case report_verify_status priv False error of
                     None \<Rightarrow> None
                   | Some priv \<Rightarrow>
                       Some (if e \<noteq> G_IO_ERROR_CANCELLED
                             then emit (G_WARNING ''Device reported an error during identify'') priv
                             else priv))) of
          None \<Rightarrow> None
        | Some priv \<Rightarrow>
            let (priv, h) = check_local_storage S L d (priv, h) (match \<noteq> None) error in
            (case stoppable_action_completed priv of
               None \<Rightarrow> None
             | Some priv \<Rightarrow> Some (priv, h)))"

text \<open>
  \<open>fprint_device_verify_start\<close>. \<open>gallery\<close> is \<open>None\<close> while the pointer is \<open>NULL\<close>
  (a finger was named), and the user's prints otherwise. With a gallery of one print
  the finger becomes that print's finger. Identification is chosen when the reader
  supports it and the finger is still unknown; otherwise the target of verification
  is the first print of the gallery, or the print loaded for the named finger.
\<close>

definition fprint_device_verify_start ::
  "'h storage \<Rightarrow> 'h \<Rightarrow> FprintDevicePrivate \<Rightarrow> invocation \<Rightarrow> string option \<Rightarrow>
   FprintDevicePrivate option" where
  "fprint_device_verify_start S h priv invoc finger_name =
     (let finger = finger_name_to_fp_finger finger_name in
      case fprint_device_check_claimed priv invoc of
        Some e \<Rightarrow> Some (emit (DBUS_RETURN_GERROR invoc e) priv)
      | None \<Rightarrow>
     (case can_start_action priv of
        Some e \<Rightarrow> Some (emit (DBUS_RETURN_GERROR invoc e) priv)
      | None \<Rightarrow>
     (case session priv of
        None \<Rightarrow> None
      | Some s \<Rightarrow>
          let gallery =
                (if finger = FP_FINGER_UNKNOWN
                 then Some (load_user_prints S h (dev priv) (Some (username s)))
                 else None)
          in
          if gallery = Some []
          then Some (emit (DBUS_RETURN_GERROR invoc FPRINT_ERROR_NO_ENROLLED_PRINTS) priv)
          else
            let finger = (case gallery of Some [fprint] \<Rightarrow> print_finger fprint | _ \<Rightarrow> finger) in
            if FP_DEVICE_FEATURE_IDENTIFY (dev priv) \<and> finger = FP_FINGER_UNKNOWN then
              let priv = priv\<lparr>current_action := ACTION_IDENTIFY,
                              current_cancellable := Some False,
                              identify_data := gallery\<rparr>;
                  priv = emit (FP_DEVICE_IDENTIFY gallery) priv;
                  priv = emit (DBUS_COMPLETE ''VerifyStart'' invoc) priv
              in Some (emit (SIGNAL_VERIFY_FINGER_SELECTED (fp_finger_to_name finger)) priv)
            else
              let (print, finger) =
                    (case gallery of
                       Some (p # rest) \<Rightarrow> (Some p, print_finger p)
                     | _ \<Rightarrow> (snd (print_data_load S h (dev priv) finger (Some (username s))), finger))
              in
              case print of
                None \<Rightarrow> Some (emit (DBUS_RETURN_GERROR invoc FPRINT_ERROR_NO_ENROLLED_PRINTS) priv)
              | Some p \<Rightarrow>
                  let priv = priv\<lparr>current_action := ACTION_VERIFY,
                                  current_cancellable := Some False,
                                  verify_data := Some p\<rparr>;
                      priv = emit (FP_DEVICE_VERIFY (Some p)) priv;
                      priv = emit (DBUS_COMPLETE ''VerifyStart'' invoc) priv
                  in Some (emit (SIGNAL_VERIFY_FINGER_SELECTED (fp_finger_to_name finger)) priv))))"

text \<open>\<open>verify_has_completed\<close>; the \<open>default\<close> case is \<open>g_assert_not_reached\<close>.\<close>

definition verify_has_completed :: "FprintDevicePrivate \<Rightarrow> bool option" where
  "verify_has_completed priv =
     (if current_cancellable priv = None \<or> g_cancellable_is_cancelled (current_cancellable priv)
      then Some True
      else if current_action priv = ACTION_VERIFY then Some (verify_data priv = None)
      else if current_action priv = ACTION_IDENTIFY then Some (identify_data priv = None)
      else None)"

text \<open>
  What one iteration of the main loop can dispatch while \<open>VerifyStop\<close> waits: the
  timer source of the wait (\<open>verify_stop_wait_timeout\<close>, which zeroes the id and is
  removed), or a callback of the running operation. Other sources (further method
  calls, a vanished client) are outside this model of the loop.
\<close>

datatype main_loop_event =
    VERIFY_STOP_WAIT_TIMEOUT
  | MATCH_CB "fp_print option" "GError option"
  | VERIFY_CB bool "GError option"
  | IDENTIFY_CB "fp_print option" "GError option"

definition g_main_context_iteration ::
  "'h storage \<Rightarrow> 'd libfprint \<Rightarrow> 'd \<Rightarrow> main_loop_event \<Rightarrow> FprintDevicePrivate \<times> 'h \<Rightarrow>
   (FprintDevicePrivate \<times> 'h) option" where
  "g_main_context_iteration S L d ev ph =
     (case ev of
        VERIFY_STOP_WAIT_TIMEOUT \<Rightarrow> Some ((fst ph)\<lparr>verify_stop_wait_timeout_id := None\<rparr>, snd ph)
      | MATCH_CB match error \<Rightarrow>
          (case match_cb (fst ph) match error of
             None \<Rightarrow> None
           | Some priv \<Rightarrow> Some (priv, snd ph))
      | VERIFY_CB match error \<Rightarrow> verify_cb S L d ph match error
      | IDENTIFY_CB match error \<Rightarrow> identify_cb S L d ph match error)"

text \<open>
  The loop \<open>while (priv->verify_stop_wait_timeout_id && !verify_has_completed (rdev))
  g_main_context_iteration (NULL, TRUE)\<close> over the events the main loop will dispatch,
  in order. The result is \<open>None\<close> when the process aborts, and also when the events
  run out while the condition still holds: the handler is then still blocked in the
  loop. Otherwise it is the state at the exit of the loop.
\<close>

fun verify_stop_wait_loop ::
  "'h storage \<Rightarrow> 'd libfprint \<Rightarrow> 'd \<Rightarrow> main_loop_event list \<Rightarrow> FprintDevicePrivate \<times> 'h \<Rightarrow>
   (FprintDevicePrivate \<times> 'h) option" where
  "verify_stop_wait_loop S L d [] ph =
     (if verify_stop_wait_timeout_id (fst ph) = None then Some ph
      else
        case verify_has_completed (fst ph) of
          None \<Rightarrow> None
        | Some True \<Rightarrow> Some ph
        | Some False \<Rightarrow> None)"
| "verify_stop_wait_loop S L d (ev # evs) ph =
     (if verify_stop_wait_timeout_id (fst ph) = None then Some ph
      else
        case verify_has_completed (fst ph) of
          None \<Rightarrow> None
        | Some True \<Rightarrow> Some ph
        | Some False \<Rightarrow>
            (case g_main_context_iteration S L d ev ph of
               None \<Rightarrow> None
             | Some ph' \<Rightarrow> verify_stop_wait_loop S L d evs ph'))"

text \<open>
  \<open>fprint_device_verify_stop\<close>, with the events the main loop dispatches while the
  handler waits. The two \<open>g_assert\<close>s before the wait abort the process when they fail.
\<close>

definition fprint_device_verify_stop ::
  "'h storage \<Rightarrow> 'd libfprint \<Rightarrow> 'd \<Rightarrow> main_loop_event list \<Rightarrow> FprintDevicePrivate \<times> 'h \<Rightarrow>
   invocation \<Rightarrow> (FprintDevicePrivate \<times> 'h) option" where
  "fprint_device_verify_stop S L d evs ph invoc =
     (let priv = fst ph; h = snd ph in
      case fprint_device_check_claimed priv invoc of
        Some e \<Rightarrow> Some (emit (DBUS_RETURN_GERROR invoc e) priv, h)
      | None \<Rightarrow>
     (case can_stop_action priv ACTION_VERIFY of
        Some e \<Rightarrow> Some (emit (DBUS_RETURN_GERROR invoc e) priv, h)
      | None \<Rightarrow>
     (case verify_has_completed priv of
        None \<Rightarrow> None
      | Some True \<Rightarrow>
          (case stoppable_action_stop priv invoc of
             None \<Rightarrow> None
           | Some priv \<Rightarrow> Some (priv, h))
      | Some False \<Rightarrow>
          (case session priv of
             None \<Rightarrow> None
           | Some s \<Rightarrow>
               if \<not> verify_status_reported s then
                 (case stoppable_action_stop priv invoc of
                    None \<Rightarrow> None
                  | Some priv \<Rightarrow> Some (priv, h))
               else if verify_stop_wait_timeout_id priv \<noteq> None then None
               else if current_cancel_invocation priv \<noteq> None then None
               else
                 let priv = emit (G_TIMEOUT_ADD_SECONDS VERIFY_STOP_DEVICE_WAIT) priv;
                     priv = priv\<lparr>verify_stop_wait_timeout_id := Some VERIFY_STOP_DEVICE_WAIT,
                                 current_cancel_invocation := Some invoc\<rparr>
                 in
                 case verify_stop_wait_loop S L d evs (priv, h) of
                   None \<Rightarrow> None
                 | Some (priv, h) \<Rightarrow>
                     let priv = priv\<lparr>verify_stop_wait_timeout_id := None\<rparr> in
                     if current_cancel_invocation priv = None then Some (priv, h)
                     else
                       (case stoppable_action_stop
                               (priv\<lparr>current_cancel_invocation := None\<rparr>) invoc of
                          None \<Rightarrow> None
                        | Some priv \<Rightarrow> Some (priv, h))))))"

subsection \<open>Deleting enrolled prints\<close>

definition user_has_print_enrolled ::
  "'h storage \<Rightarrow> 'h \<Rightarrow> FpDevice \<Rightarrow> string option \<Rightarrow> FpFinger \<Rightarrow> bool" where
  "user_has_print_enrolled S h d user finger =
     (let prints = discover_prints S h d user in
      if finger = FP_FINGER_UNKNOWN then prints \<noteq> []
      else finger \<in> set prints)"

text \<open>
  The first loop of \<open>delete_enrolled_fingers\<close>, over the fingers discovered for the
  user: every loaded print of the requested finger (or of any finger, for the unknown
  slot) is deleted from the device; the first failure is kept in \<open>device_error\<close>.
\<close>

fun delete_from_device_loop ::
  "'h storage \<Rightarrow> 'd libfprint \<Rightarrow> 'h \<Rightarrow> string option \<Rightarrow> FpFinger \<Rightarrow> FpFinger list \<Rightarrow>
   bool \<times> FprintDevicePrivate \<times> 'd \<Rightarrow> bool \<times> FprintDevicePrivate \<times> 'd" where
  "delete_from_device_loop S L h user finger [] st = st"
| "delete_from_device_loop S L h user finger (l # ls) (device_error, priv, d) =
     (case snd (print_data_load S h (dev priv) l user) of
        None \<Rightarrow> delete_from_device_loop S L h user finger ls (device_error, priv, d)
      | Some print \<Rightarrow>
          if finger \<noteq> FP_FINGER_UNKNOWN \<and> print_finger print \<noteq> finger
          then delete_from_device_loop S L h user finger ls (device_error, priv, d)
          else
            (case fp_device_delete_print_sync L d print of
               (None, d') \<Rightarrow> delete_from_device_loop S L h user finger ls (device_error, priv, d')
             | (Some e, d') \<Rightarrow>
                 delete_from_device_loop S L h user finger ls
                   (True,
                    emit (G_WARNING ''This might indicate an issue in the libfprint driver or in the fingerprint device.'')
                      (emit (G_WARNING ''Error deleting print from device'') priv),
                    d')))"

text \<open>
  The second loop, for the unknown slot: delete every slot from the store; the first
  slot that fails to delete and is still enrolled sets \<open>local_error\<close>, and the loop
  goes on.
\<close>

fun delete_all_from_store_loop ::
  "'h storage \<Rightarrow> FpDevice \<Rightarrow> string option \<Rightarrow> FpFinger list \<Rightarrow> bool \<times> 'h \<Rightarrow> bool \<times> 'h" where
  "delete_all_from_store_loop S dv user [] st = st"
| "delete_all_from_store_loop S dv user (i # is) (local_error, h) =
     (let (r, h') = print_data_delete S h dv i user in
      if r \<noteq> 0 then
        (if local_error then delete_all_from_store_loop S dv user is (local_error, h')
         else delete_all_from_store_loop S dv user is
                (user_has_print_enrolled S h' dv user i, h'))
      else delete_all_from_store_loop S dv user is (local_error, h'))"

text \<open>
  \<open>delete_enrolled_fingers\<close>: the error it sets (\<open>None\<close> for the return value
  \<open>TRUE\<close>), with the device object, the store and the reader afterwards.
\<close>

definition delete_enrolled_fingers ::
  "'h storage \<Rightarrow> 'd libfprint \<Rightarrow> FprintDevicePrivate \<times> 'h \<times> 'd \<Rightarrow> string option \<Rightarrow> FpFinger \<Rightarrow>
   FprintError option \<times> FprintDevicePrivate \<times> 'h \<times> 'd" where
  "delete_enrolled_fingers S L st user finger =
     (case st of (priv, h, d) \<Rightarrow>
      if \<not> user_has_print_enrolled S h (dev priv) user finger
      then (Some FPRINT_ERROR_NO_ENROLLED_PRINTS, priv, h, d)
      else
        let (device_error, priv, d) =
              (if FP_DEVICE_FEATURE_STORAGE (dev priv)
               then delete_from_device_loop S L h user finger
                      (discover_prints S h (dev priv) user) (False, priv, d)
               else (False, priv, d))
        in
        if finger \<noteq> FP_FINGER_UNKNOWN then
          (let (r, h') = print_data_delete S h (dev priv) finger user in
           if r \<noteq> 0 \<and> user_has_print_enrolled S h' (dev priv) user finger
           then (Some FPRINT_ERROR_PRINTS_NOT_DELETED, priv, h', d)
           else if device_error then (Some FPRINT_ERROR_PRINTS_NOT_DELETED_FROM_DEVICE, priv, h', d)
           else (None, priv, h', d))
        else
          (let (local_error, h') =
                 delete_all_from_store_loop S (dev priv) user
                   [FP_FINGER_FIRST ..< Suc FP_FINGER_LAST] (False, h)
           in
           if local_error then (Some FPRINT_ERROR_PRINTS_NOT_DELETED, priv, h', d)
           else if device_error then (Some FPRINT_ERROR_PRINTS_NOT_DELETED_FROM_DEVICE, priv, h', d)
           else (None, priv, h', d)))"

text \<open>
  The three handlers. Once \<open>action_unset\<close> is assigned, every return resets the
  current action to \<open>ACTION_NONE\<close> (the scoped cleanup \<open>auto_device_action_unset\<close>).
\<close>

definition fprint_device_delete_enrolled_finger ::
  "'h storage \<Rightarrow> 'd libfprint \<Rightarrow> FprintDevicePrivate \<times> 'h \<times> 'd \<Rightarrow> invocation \<Rightarrow> string option \<Rightarrow>
   (FprintDevicePrivate \<times> 'h \<times> 'd) option" where
  "fprint_device_delete_enrolled_finger S L st invoc finger_name =
     (case st of (priv, h, d) \<Rightarrow>
      let finger = finger_name_to_fp_finger finger_name in
      case fprint_device_check_claimed priv invoc of
        Some e \<Rightarrow> Some (emit (DBUS_RETURN_GERROR invoc e) priv, h, d)
      | None \<Rightarrow>
          if finger = FP_FINGER_UNKNOWN
          then Some (emit (DBUS_RETURN_GERROR invoc FPRINT_ERROR_INVALID_FINGERNAME) priv, h, d)
          else
            (case can_start_action priv of
               Some e \<Rightarrow> Some (emit (DBUS_RETURN_GERROR invoc e) priv, h, d)
             | None \<Rightarrow>
                 (case session priv of
                    None \<Rightarrow> None
                  | Some s \<Rightarrow>
                      (case delete_enrolled_fingers S L (priv\<lparr>current_action := ACTION_DELETE\<rparr>, h, d)
                              (Some (username s)) finger of
                         (Some e, priv, h, d) \<Rightarrow>
                           Some ((emit (DBUS_RETURN_GERROR invoc e) priv)
                                   \<lparr>current_action := ACTION_NONE\<rparr>, h, d)
                       | (None, priv, h, d) \<Rightarrow>
                           Some ((emit (DBUS_COMPLETE ''DeleteEnrolledFinger'' invoc) priv)
                                   \<lparr>current_action := ACTION_NONE\<rparr>, h, d)))))"

definition fprint_device_delete_enrolled_fingers2 ::
  "'h storage \<Rightarrow> 'd libfprint \<Rightarrow> FprintDevicePrivate \<times> 'h \<times> 'd \<Rightarrow> invocation \<Rightarrow>
   (FprintDevicePrivate \<times> 'h \<times> 'd) option" where
  "fprint_device_delete_enrolled_fingers2 S L st invoc =
     (case st of (priv, h, d) \<Rightarrow>
      case fprint_device_check_claimed priv invoc of
        Some e \<Rightarrow> Some (emit (DBUS_RETURN_GERROR invoc e) priv, h, d)
      | None \<Rightarrow>
          (case can_start_action priv of
             Some e \<Rightarrow> Some (emit (DBUS_RETURN_GERROR invoc e) priv, h, d)
           | None \<Rightarrow>
               (case session priv of
                  None \<Rightarrow> None
                | Some s \<Rightarrow>
                    (case delete_enrolled_fingers S L (priv\<lparr>current_action := ACTION_DELETE\<rparr>, h, d)
                            (Some (username s)) FP_FINGER_UNKNOWN of
                       (Some e, priv, h, d) \<Rightarrow>
                         Some ((emit (DBUS_RETURN_GERROR invoc e) priv)
                                 \<lparr>current_action := ACTION_NONE\<rparr>, h, d)
                     | (None, priv, h, d) \<Rightarrow>
                         Some ((emit (DBUS_COMPLETE ''DeleteEnrolledFingers2'' invoc) priv)
                                 \<lparr>current_action := ACTION_NONE\<rparr>, h, d)))))"

text \<open>
  The legacy \<open>DeleteEnrolledFingers\<close>. \<open>user\<close> is the name attached to the invocation
  by the authorization step, \<open>uname\<close> the argument of the call. The asynchronous
  lookup of the offending client's name only logs and is left out.
\<close>

definition fprint_device_delete_enrolled_fingers ::
  "'h storage \<Rightarrow> 'd libfprint \<Rightarrow> FprintDevicePrivate \<times> 'h \<times> 'd \<Rightarrow> invocation \<Rightarrow> string option \<Rightarrow>
   string \<Rightarrow> (FprintDevicePrivate \<times> 'h \<times> 'd) option" where
  "fprint_device_delete_enrolled_fingers S L st invoc user uname =
     (case st of (priv, h, d) \<Rightarrow>
      let priv = emit (G_WARNING ''The API user should be updated to use DeleteEnrolledFingers2 method!'') priv in
      case can_start_action priv of
        Some e \<Rightarrow> Some (emit (DBUS_RETURN_GERROR invoc e) priv, h, d)
      | None \<Rightarrow>
          let priv = priv\<lparr>current_action := ACTION_DELETE\<rparr>;
              claimed = fprint_device_check_claimed priv invoc
          in
          case (case claimed of
                  None \<Rightarrow> None
                | Some e \<Rightarrow> if e \<noteq> FPRINT_ERROR_CLAIM_DEVICE then Some e else None) of
            Some e \<Rightarrow>
              Some ((emit (DBUS_RETURN_GERROR invoc e) priv)\<lparr>current_action := ACTION_NONE\<rparr>, h, d)
          | None \<Rightarrow>
            let opened = (if claimed = None then fp_device_is_open L d else False);
                priv = fprint_device_add_client priv (inv_sender invoc);
                d = (if \<not> opened \<and> FP_DEVICE_FEATURE_STORAGE (dev priv)
                     then fp_device_open_sync L d else d)
            in
            case user of
              None \<Rightarrow> None
            | Some u \<Rightarrow>
                if \<not> (uname = [] \<or> u = uname) then None
                else
                  (case delete_enrolled_fingers S L (priv, h, d) (Some u) FP_FINGER_UNKNOWN of
                     (error, priv, h, d) \<Rightarrow>
                       let d = (if \<not> opened \<and> FP_DEVICE_FEATURE_STORAGE (dev priv)
                                then fp_device_close_sync L d else d)
                       in
                       (case error of
                          Some e \<Rightarrow>
                            Some ((emit (DBUS_RETURN_GERROR invoc e) priv)
                                    \<lparr>current_action := ACTION_NONE\<rparr>, h, d)
                        | None \<Rightarrow>
                            Some ((emit (DBUS_COMPLETE ''DeleteEnrolledFingers'' invoc) priv)
                                    \<lparr>current_action := ACTION_NONE\<rparr>, h, d))))"

subsection \<open>Enrollment and the garbage collection of the on-device storage\<close>

text \<open>
  \<open>g_random_int_range (begin, end)\<close> of GLib returns a number from \<open>begin\<close> up to \<open>end - 1\<close>. The
  generator is a parameter: \<open>G\<close> is the sequence of raw numbers it produces, and the
  state is the position in that sequence.
\<close>

definition G_MAXINT32 :: int where
  "G_MAXINT32 = 2147483647"

definition g_random_int_range :: "(nat \<Rightarrow> nat) \<Rightarrow> nat \<Rightarrow> int \<Rightarrow> int \<Rightarrow> int \<times> nat" where
  "g_random_int_range G pos lo hi = (lo + int (G pos) mod (hi - lo), Suc pos)"

text \<open>
  The state the comparator changes: the number attached to each print object under
  the key \<open>"sort-rand"\<close> (0 when nothing is attached, as \<open>g_object_get_data\<close> returns
  \<open>NULL\<close>), indexed by the object's identity, and the position of the generator.
\<close>

record sort_state =
  sort_rand :: "nat \<Rightarrow> 32 word"
  rand_pos :: nat

text \<open>The number of a print object, drawn and attached when none is attached yet.\<close>

definition get_sort_rand :: "(nat \<Rightarrow> nat) \<Rightarrow> sort_state \<Rightarrow> 32 word \<Rightarrow> fp_print \<Rightarrow> 32 word \<times> sort_state" where
  "get_sort_rand G st rand_x print_x =
     (if rand_x = 0 then
        let (r, pos') = g_random_int_range G (rand_pos st) 1 G_MAXINT32;
            rand_x = word_of_int r
        in (rand_x, st\<lparr>sort_rand := (sort_rand st)(obj print_x := rand_x), rand_pos := pos'\<rparr>)
      else (rand_x, st))"

text \<open>
  \<open>garbage_collect_sort\<close>, the comparison function handed to \<open>g_ptr_array_sort\<close>.
  The Julian days are \<open>guint32\<close> and default to 0; their difference is computed
  modulo \<open>2^32\<close> and returned as a \<open>gint\<close>, so it is read as a signed number. Both
  attached numbers are read before either is assigned.
\<close>

definition garbage_collect_sort ::
  "(nat \<Rightarrow> nat) \<Rightarrow> sort_state \<Rightarrow> fp_print \<Rightarrow> fp_print \<Rightarrow> int \<times> sort_state" where
  "garbage_collect_sort G st print_a print_b =
     (let julian_a = (case enroll_date print_a of Some j \<Rightarrow> j | None \<Rightarrow> 0);
          julian_b = (case enroll_date print_b of Some j \<Rightarrow> j | None \<Rightarrow> 0)
      in
      if julian_a \<noteq> julian_b then (sint (julian_b - julian_a), st)
      else
        let rand_a = sort_rand st (obj print_a);
            rand_b = sort_rand st (obj print_b);
            (rand_a, st) = get_sort_rand G st rand_a print_a;
            (rand_b, st) = get_sort_rand G st rand_b print_b
        in (sint (rand_b - rand_a), st))"

text \<open>
  \<open>g_ptr_array_sort\<close> belongs to GLib. It is modelled as a stable insertion sort that
  calls the comparison function with the state threaded through the calls: an element
  is placed before the first element it does not compare greater than. On prints
  whose comparison never returns 0 every comparison sort produces the same order.
\<close>

fun g_ptr_array_insert_sorted ::
  "(nat \<Rightarrow> nat) \<Rightarrow> fp_print \<Rightarrow> fp_print list \<Rightarrow> sort_state \<Rightarrow> fp_print list \<times> sort_state" where
  "g_ptr_array_insert_sorted G x [] st = ([x], st)"
| "g_ptr_array_insert_sorted G x (y # ys) st =
     (let (c, st') = garbage_collect_sort G st x y in
      if c \<le> 0 then (x # y # ys, st')
      else
        let (zs, st'') = g_ptr_array_insert_sorted G x ys st' in (y # zs, st''))"

fun g_ptr_array_sort ::
  "(nat \<Rightarrow> nat) \<Rightarrow> fp_print list \<Rightarrow> sort_state \<Rightarrow> fp_print list \<times> sort_state" where
  "g_ptr_array_sort G [] st = ([], st)"
| "g_ptr_array_sort G (x # xs) st =
     (let (ys, st') = g_ptr_array_sort G xs st in g_ptr_array_insert_sorted G x ys st')"

text \<open>
  \<open>g_ptr_array_find_with_equal_func\<close> followed by \<open>g_ptr_array_remove_index\<close>: the
  first element of the array equal to the needle is removed, the order of the others
  is kept; an array without such an element is left as it is.
\<close>

fun remove_first_equal :: "(fp_print \<Rightarrow> fp_print \<Rightarrow> bool) \<Rightarrow> fp_print \<Rightarrow> fp_print list \<Rightarrow> fp_print list" where
  "remove_first_equal eq needle [] = []"
| "remove_first_equal eq needle (x # xs) =
     (if eq x needle then xs else x # remove_first_equal eq needle xs)"

text \<open>
  \<open>try_delete_print\<close>: the return value, and the device object (for the warnings),
  the reader and the position of the random generator afterwards. The print objects
  that the driver lists are new, so nothing is attached to them at the start.
\<close>

definition try_delete_print ::
  "'h storage \<Rightarrow> 'd libfprint \<Rightarrow> (nat \<Rightarrow> nat) \<Rightarrow> FprintDevicePrivate \<times> 'h \<times> 'd \<times> nat \<Rightarrow>
   bool \<times> FprintDevicePrivate \<times> 'd \<times> nat" where
  "try_delete_print S L G w =
     (case w of (priv, h, d, pos) \<Rightarrow>
      case fp_device_list_prints_sync L d of
        Inl e \<Rightarrow> (False, emit (G_WARNING ''Failed to query prints'') priv, d, pos)
      | Inr device_prints \<Rightarrow>
          let (device_prints, st) =
                g_ptr_array_sort G device_prints \<lparr>sort_rand = (\<lambda>_. 0), rand_pos = pos\<rparr>;
              host_prints = load_all_prints S h (dev priv);
              device_prints =
                fold (\<lambda>host_print dps. remove_first_equal (fp_print_equal L) host_print dps)
                  host_prints device_prints
          in
          case device_prints of
            [] \<Rightarrow> (False, priv, d, rand_pos st)
          | first # _ \<Rightarrow>
              (case fp_device_delete_print_sync L d first of
                 (Some e, d') \<Rightarrow>
                   (False, emit (G_WARNING ''Failed to garbage collect a print'') priv, d', rand_pos st)
               | (None, d') \<Rightarrow> (True, priv, d', rand_pos st)))"

text \<open>
  \<open>fprint_device_create_enroll_template\<close>: a new print for this reader, with the
  requested finger, the session's user and today's date (\<open>today\<close>, a Julian day).
\<close>

definition fprint_device_create_enroll_template ::
  "32 word \<Rightarrow> FprintDevicePrivate \<Rightarrow> FpFinger \<Rightarrow> fp_print option" where
  "fprint_device_create_enroll_template today priv finger =
     (case session priv of
        None \<Rightarrow> None
      | Some s \<Rightarrow>
          Some \<lparr>obj = 0,
                print_driver = dev_driver (dev priv),
                print_device_id = dev_device_id (dev priv),
                print_username = Some (username s),
                print_finger = finger,
                enroll_date = Some today,
                device_stored = False,
                print_data = []\<rparr>)"

text \<open>
  \<open>enroll_cb\<close>, given what \<open>fp_device_enroll_finish\<close> returned. When the device
  reports that its storage is full and it can list its prints, a print is garbage
  collected and the enrollment is restarted with a new template.
\<close>

definition enroll_cb ::
  "'h storage \<Rightarrow> 'd libfprint \<Rightarrow> (nat \<Rightarrow> nat) \<Rightarrow> 32 word \<Rightarrow> FprintDevicePrivate \<times> 'h \<times> 'd \<times> nat \<Rightarrow>
   fp_print option \<Rightarrow> GError option \<Rightarrow> (FprintDevicePrivate \<times> 'h \<times> 'd \<times> nat) option" where
  "enroll_cb S L G today w print error =
     (case w of (priv, h, d, pos) \<Rightarrow>
      let (restart, priv, d, pos) =
            (if error = Some (FP_DEVICE_ERROR FP_DEVICE_ERROR_DATA_FULL)
                \<and> FP_DEVICE_FEATURE_STORAGE_LIST (dev priv)
             then try_delete_print S L G (priv, h, d, pos)
             else (False, priv, d, pos))
      in
      if restart then
        (case fprint_device_create_enroll_template today priv (enroll_data priv) of
           None \<Rightarrow> None
         | Some template \<Rightarrow> Some (emit (FP_DEVICE_ENROLL template) priv, h, d, pos))
      else
        let name = enroll_result_to_name True (print \<noteq> None) error;
            (name, h) =
              (case print of
                 None \<Rightarrow> (name, h)
               | Some p \<Rightarrow>
                   let (r, h') = print_data_save S h p in
                   (if r \<noteq> 0 then ''enroll-failed'' else name, h'));
            priv = emit (SIGNAL_ENROLL_STATUS name True) priv;
            priv = (if error \<noteq> None \<and> error \<noteq> Some G_IO_ERROR_CANCELLED
                    then emit (G_WARNING ''Device reported an error during enroll'') priv
                    else priv)
        in
        case stoppable_action_completed priv of
          None \<Rightarrow> None
        | Some priv \<Rightarrow> Some (priv, h, d, pos))"


section \<open>The file storage backend (src/src/file_storage.c)\<close>

definition FILE_STORAGE_PATH :: string where
  "FILE_STORAGE_PATH = ''/var/lib/fprint''"

text \<open>
  \<open>g_strsplit (string, delimiter, -1)\<close> of GLib for a delimiter of one character:
  the pieces between the delimiters, in order, empty pieces included; the empty
  string splits into the empty vector.
\<close>

fun g_strsplit_from :: "char \<Rightarrow> string \<Rightarrow> string \<Rightarrow> string list" where
  "g_strsplit_from c cur [] = [rev cur]"
| "g_strsplit_from c cur (x # xs) =
     (if x = c then rev cur # g_strsplit_from c [] xs else g_strsplit_from c (x # cur) xs)"

definition g_strsplit :: "string \<Rightarrow> char \<Rightarrow> string list" where
  "g_strsplit str c = (if str = [] then [] else g_strsplit_from c [] str)"

text \<open>
  \<open>get_storage_path\<close>. The first argument is the static variable \<open>storage_path\<close>
  (\<open>None\<close> for \<open>NULL\<close>), the second the value of the environment variable
  \<open>STATE_DIRECTORY\<close> (\<open>None\<close> when it is not set). The result is the returned path and
  the static variable afterwards.
\<close>

definition get_storage_path :: "string option \<Rightarrow> string option \<Rightarrow> string \<times> string option" where
  "get_storage_path storage_path state_directory =
     (case storage_path of
        Some p \<Rightarrow> (p, storage_path)
      | None \<Rightarrow>
          let storage_path =
                (case state_directory of
                   None \<Rightarrow> None
                 | Some path \<Rightarrow>
                     if CHR '':'' \<in> set path then
                       (case g_strsplit path (CHR '':'') of
                          [] \<Rightarrow> None
                        | e # elems \<Rightarrow> Some e)
                     else if path \<noteq> [] then Some path
                     else None);
              p = (case storage_path of None \<Rightarrow> FILE_STORAGE_PATH | Some p \<Rightarrow> p)
          in (p, Some p))"

text \<open>
  What the backend takes from its environment: the environment variable, GLib's path
  builder and file reader (an error code of \<open>GFileError\<close>, or the contents), and
  libfprint's deserializer and compatibility test.
\<close>

record file_storage_env =
  STATE_DIRECTORY :: "string option"
  g_build_filename :: "string list \<Rightarrow> string"
  g_file_get_contents :: "string \<Rightarrow> int + string"
  fp_print_deserialize :: "string \<Rightarrow> fp_print option"
  fp_print_compatible :: "fp_print \<Rightarrow> FpDevice \<Rightarrow> bool"

definition G_FILE_ERROR_NOENT :: int where "G_FILE_ERROR_NOENT = 4"
definition ENOENT :: int where "ENOENT = 2"
definition EIO :: int where "EIO = 5"
definition EINVAL :: int where "EINVAL = 22"

text \<open>
  The \<open>"%x"\<close> conversion, and \<open>g_snprintf (fingername, 2, "%x", finger)\<close>: the buffer
  holds one character, so the name is the first hexadecimal digit.
\<close>

definition hex_digit :: "nat \<Rightarrow> char" where
  "hex_digit n = ''0123456789abcdef'' ! (n mod 16)"

fun hex_string :: "nat \<Rightarrow> string" where
  "hex_string n = (if n < 16 then [hex_digit n] else hex_string (n div 16) @ [hex_digit n])"

definition fingername :: "FpFinger \<Rightarrow> string" where
  "fingername finger = take 1 (hex_string finger)"

text \<open>
  \<open>file_storage_get_basestore_for_username\<close>: the variadic call ends at the first
  \<open>NULL\<close>, so a \<open>NULL\<close> user name adds no component. The static variable is threaded.
\<close>

definition file_storage_get_basestore_for_username ::
  "file_storage_env \<Rightarrow> string option \<Rightarrow> string option \<Rightarrow> string \<times> string option" where
  "file_storage_get_basestore_for_username E storage_path user =
     (let (root, storage_path) = get_storage_path storage_path (STATE_DIRECTORY E) in
      (g_build_filename E (root # (case user of None \<Rightarrow> [] | Some u \<Rightarrow> [u])), storage_path))"

definition get_path_to_storedir :: "file_storage_env \<Rightarrow> string \<Rightarrow> string \<Rightarrow> string \<Rightarrow> string" where
  "get_path_to_storedir E driver device_id base_store =
     g_build_filename E [base_store, driver, device_id]"

definition get_path_to_print :: "file_storage_env \<Rightarrow> FpDevice \<Rightarrow> FpFinger \<Rightarrow> string \<Rightarrow> string" where
  "get_path_to_print E d finger base_store =
     g_build_filename E
       [get_path_to_storedir E (dev_driver d) (dev_device_id d) base_store, fingername finger]"

definition load_from_file :: "file_storage_env \<Rightarrow> string \<Rightarrow> int \<times> fp_print option" where
  "load_from_file E path =
     (case g_file_get_contents E path of
        Inl r \<Rightarrow> (if r = G_FILE_ERROR_NOENT then - ENOENT else r, None)
      | Inr contents \<Rightarrow>
          (case fp_print_deserialize E contents of
             None \<Rightarrow> (- EIO, None)
           | Some new \<Rightarrow> (0, Some new)))"

text \<open>
  \<open>file_storage_print_data_load\<close>: the result code, the print stored through the out
  parameter, and the static variable afterwards. When \<open>load_from_file\<close> returns 0
  without a print (a read error whose code is 0), libfprint's getters reject the
  \<open>NULL\<close> print and one of the three tests fails.
\<close>

definition file_storage_print_data_load ::
  "file_storage_env \<Rightarrow> string option \<Rightarrow> FpDevice \<Rightarrow> FpFinger \<Rightarrow> string option \<Rightarrow>
   (int \<times> fp_print option) \<times> string option" where
  "file_storage_print_data_load E storage_path d finger user =
     (let (base_store, storage_path) = file_storage_get_basestore_for_username E storage_path user;
          path = get_path_to_print E d finger base_store;
          (r, new) = load_from_file E path
      in
      if r \<noteq> 0 then ((r, None), storage_path)
      else
        case new of
          None \<Rightarrow> ((- EINVAL, None), storage_path)
        | Some new \<Rightarrow>
            if print_finger new \<noteq> finger then ((- EINVAL, None), storage_path)
            else if print_username new \<noteq> user then ((- EINVAL, None), storage_path)
            else if \<not> fp_print_compatible E new d then ((- EINVAL, None), storage_path)
            else ((0, Some new), storage_path))"

section \<open>The manager (src/src/manager.c)\<close>




section \<open>Operations as sequences of events\<close>

text \<open>
  A \<open>VerifyStatus\<close> signal with \<open>done = true\<close>, and how many of them the device object
  has emitted so far.
\<close>

definition is_final_verify_status :: "emission \<Rightarrow> bool" where
  "is_final_verify_status x = (case x of SIGNAL_VERIFY_STATUS result done \<Rightarrow> done | _ \<Rightarrow> False)"

definition final_verify_status_count :: "FprintDevicePrivate \<Rightarrow> int" where
  "final_verify_status_count priv = int (length (filter is_final_verify_status (emitted priv)))"


text \<open>The flag \<open>verify_status_reported\<close> of the session (false without a session).\<close>

definition reported :: "FprintDevicePrivate \<Rightarrow> bool" where
  "reported priv = (case session priv of None \<Rightarrow> False | Some s \<Rightarrow> verify_status_reported s)"


text \<open>The local \<open>done\<close> of \<open>report_verify_status\<close>: no error, or an error that is no retry.\<close>

definition verify_status_done :: "GError option \<Rightarrow> bool" where
  "verify_status_done error = (case error of None \<Rightarrow> True | Some e \<Rightarrow> \<not> is_retry e)"


text \<open>
  What happens to a running verify or identify operation, in order: a callback of the
  driver dispatched by the main loop, or a \<open>VerifyStop\<close> call (with the events the main
  loop dispatches while that handler waits). \<open>run_operation\<close> applies such a sequence.
  It stops at the first state in which no verify or identify action is current: the
  operation is over there. A callback can only arrive while the driver operation is
  pending, that is while the cancellable exists; a sequence that has one arrive later
  is not a behaviour of the system, and the result is \<open>None\<close>, as it is when the process
  aborts.
\<close>

datatype operation_event =
    CALLBACK main_loop_event
  | VERIFY_STOP invocation "main_loop_event list"

fun run_operation ::
  "'h storage \<Rightarrow> 'd libfprint \<Rightarrow> 'd \<Rightarrow> operation_event list \<Rightarrow> FprintDevicePrivate \<times> 'h \<Rightarrow>
   (FprintDevicePrivate \<times> 'h) option" where
  "run_operation S L d [] ph = Some ph"
| "run_operation S L d (e # es) ph =
     (if current_action (fst ph) \<noteq> ACTION_VERIFY \<and> current_action (fst ph) \<noteq> ACTION_IDENTIFY
      then Some ph
      else
        case e of
          CALLBACK ev \<Rightarrow>
            if current_cancellable (fst ph) = None then None
            else (case g_main_context_iteration S L d ev ph of
                    None \<Rightarrow> None
                  | Some ph' \<Rightarrow> run_operation S L d es ph')
        | VERIFY_STOP invoc evs \<Rightarrow>
            (case fprint_device_verify_stop S L d evs ph invoc of
               None \<Rightarrow> None
             | Some ph' \<Rightarrow> run_operation S L d es ph'))"


text \<open>
  The events that leave the operation running (a match callback, whose error must be
  absent or a retry error, or a completion callback with a retry error, which restarts
  the operation), and the events that complete it (a completion callback with any
  other outcome).
\<close>

definition non_completing :: "main_loop_event \<Rightarrow> bool" where
  "non_completing ev =
     (case ev of
        VERIFY_STOP_WAIT_TIMEOUT \<Rightarrow> False
      | MATCH_CB m e \<Rightarrow> (case e of None \<Rightarrow> True | Some x \<Rightarrow> is_retry x)
      | VERIFY_CB m e \<Rightarrow> (case e of None \<Rightarrow> False | Some x \<Rightarrow> is_retry x)
      | IDENTIFY_CB m e \<Rightarrow> (case e of None \<Rightarrow> False | Some x \<Rightarrow> is_retry x))"

definition completing :: "main_loop_event \<Rightarrow> bool" where
  "completing ev =
     (case ev of
        VERIFY_CB m e \<Rightarrow> (case e of None \<Rightarrow> True | Some x \<Rightarrow> \<not> is_retry x)
      | IDENTIFY_CB m e \<Rightarrow> (case e of None \<Rightarrow> True | Some x \<Rightarrow> \<not> is_retry x)
      | _ \<Rightarrow> False)"


text \<open>
  The emissions that neither cancel, nor reply to a method call, nor report a final
  verify status.
\<close>

definition inert :: "emission \<Rightarrow> bool" where
  "inert x =
     (case x of
        G_CANCELLABLE_CANCEL \<Rightarrow> False
      | DBUS_COMPLETE m i \<Rightarrow> False
      | DBUS_RETURN_GERROR i e \<Rightarrow> False
      | SIGNAL_VERIFY_STATUS r done \<Rightarrow> \<not> done
      | _ \<Rightarrow> True)"


text \<open>
  \<open>stop_replied invoc p p'\<close>: from \<open>p\<close> to \<open>p'\<close> the pending \<open>VerifyStop\<close> call \<open>invoc\<close> was
  answered and the action completed. The reply is the last emission; before it there are
  only emissions of the kind above.
\<close>

definition stop_replied ::
  "invocation \<Rightarrow> FprintDevicePrivate \<Rightarrow> FprintDevicePrivate \<Rightarrow> bool" where
  "stop_replied invoc p p' =
     (current_action p' = ACTION_NONE \<and> current_cancellable p' = None
      \<and> current_cancel_invocation p' = None \<and> \<not> reported p'
      \<and> verify_stop_wait_timeout_id p' = verify_stop_wait_timeout_id p
      \<and> (\<exists>more. emitted p' = emitted p @ more @ [DBUS_COMPLETE ''VerifyStop'' invoc]
                 \<and> list_all inert more))"


section \<open>Relations and invariants used in the proofs\<close>

text \<open>
  \<open>quiet\<close>: nothing changed but the latch of the reconciliation and new warnings.
  \<open>calm\<close>: session, action, cancellable, pending stop call and timer are unchanged and
  the new emissions are of the kind above; \<open>idle_step\<close> is \<open>calm\<close> with the verify
  target and identify gallery unchanged too.
\<close>

definition quiet :: "FprintDevicePrivate \<Rightarrow> FprintDevicePrivate \<Rightarrow> bool" where
  "quiet priv priv' =
     (session priv' = session priv \<and> current_action priv' = current_action priv
      \<and> current_cancellable priv' = current_cancellable priv
      \<and> current_cancel_invocation priv' = current_cancel_invocation priv
      \<and> verify_data priv' = verify_data priv \<and> identify_data priv' = identify_data priv
      \<and> verify_stop_wait_timeout_id priv' = verify_stop_wait_timeout_id priv
      \<and> (\<exists>ws. emitted priv' = emitted priv @ map G_WARNING ws))"

definition calm :: "FprintDevicePrivate \<Rightarrow> FprintDevicePrivate \<Rightarrow> bool" where
  "calm priv priv' =
     (session priv' = session priv \<and> current_action priv' = current_action priv
      \<and> current_cancellable priv' = current_cancellable priv
      \<and> current_cancel_invocation priv' = current_cancel_invocation priv
      \<and> verify_stop_wait_timeout_id priv' = verify_stop_wait_timeout_id priv
      \<and> (\<exists>more. emitted priv' = emitted priv @ more \<and> list_all inert more))"

definition idle_step :: "FprintDevicePrivate \<Rightarrow> FprintDevicePrivate \<Rightarrow> bool" where
  "idle_step priv priv' =
     (calm priv priv' \<and> verify_data priv' = verify_data priv
      \<and> identify_data priv' = identify_data priv)"


text \<open>
  The invariant of an operation, for a number \<open>n\<close> of final statuses emitted before it
  got its own: while the operation runs there is a session, the count is \<open>n\<close> plus one
  exactly when the flag is set and, when \<open>b\<close> is set, the flag is set. When no verify or
  identify action is current, the count is at most \<open>n + 1\<close>.
\<close>

definition live :: "int \<Rightarrow> bool \<Rightarrow> FprintDevicePrivate \<Rightarrow> bool" where
  "live n b priv =
     (session priv \<noteq> None
      \<and> final_verify_status_count priv = n + (if reported priv then 1 else 0)
      \<and> (b \<longrightarrow> reported priv))"

definition operation_inv :: "int \<Rightarrow> bool \<Rightarrow> FprintDevicePrivate \<Rightarrow> bool" where
  "operation_inv n b priv =
     (if current_action priv = ACTION_VERIFY \<or> current_action priv = ACTION_IDENTIFY
      then live n b priv
      else live n b priv \<or> final_verify_status_count priv \<le> n + 1)"


text \<open>
  For the order that \<open>g_ptr_array_sort\<close> produces with \<open>garbage_collect_sort\<close>:
  \<open>julian\<close> is the Julian day the comparison function reads off a print,
  \<open>newest_first\<close> says that no print of a list is followed by a newer one, and \<open>dated\<close>
  that every Julian day is below \<open>2^31\<close>, so that the difference of two of them fits
  the \<open>gint\<close> the comparison function returns.
\<close>

definition julian :: "fp_print \<Rightarrow> 32 word" where
  "julian p = (case enroll_date p of Some j \<Rightarrow> j | None \<Rightarrow> 0)"

definition newest_first :: "fp_print list \<Rightarrow> bool" where
  "newest_first ps = sorted_wrt (\<lambda>p q. julian q \<le> julian p) ps"

definition dated :: "fp_print list \<Rightarrow> bool" where
  "dated ps = list_all (\<lambda>p. uint (julian p) < 2 ^ 31) ps"


section \<open>Concrete instances of the interfaces\<close>

text \<open>
  A reader, an in-memory store (the list of the stored prints), an in-memory device
  storage (the list of the prints on the device), a session and a file system, used
  to evaluate the model at concrete inputs.
\<close>

definition ex_dev :: FpDevice where
  "ex_dev = \<lparr>dev_name = ''Virtual reader'', dev_driver = ''virtual_device_storage'',
             dev_device_id = ''0'', FP_DEVICE_FEATURE_IDENTIFY = True,
             FP_DEVICE_FEATURE_STORAGE = True, FP_DEVICE_FEATURE_STORAGE_LIST = True\<rparr>"

definition ex_print :: "nat \<Rightarrow> string \<Rightarrow> FpFinger \<Rightarrow> 32 word option \<Rightarrow> fp_print" where
  "ex_print n user finger date =
     \<lparr>obj = n, print_driver = ''virtual_device_storage'', print_device_id = ''0'',
      print_username = Some user, print_finger = finger, enroll_date = date,
      device_stored = True, print_data = user @ ''-'' @ fingername finger\<rparr>"

definition ex_store :: "fp_print list storage" where
  "ex_store =
     \<lparr>print_data_save = (\<lambda>h p. (0, h @ [p])),
      print_data_load = (\<lambda>h d finger user.
         case find (\<lambda>p. print_finger p = finger \<and> print_username p = user) h of
           None \<Rightarrow> (- ENOENT, None)
         | Some p \<Rightarrow> (0, Some p)),
      print_data_delete = (\<lambda>h d finger user.
         (0, filter (\<lambda>p. \<not> (print_finger p = finger \<and> print_username p = user)) h)),
      discover_prints = (\<lambda>h d user. map print_finger (filter (\<lambda>p. print_username p = user) h)),
      discover_users = (\<lambda>h. remdups (List.map_filter print_username h))\<rparr>"

definition ex_reader :: "fp_print list libfprint" where
  "ex_reader =
     \<lparr>fp_device_list_prints_sync = (\<lambda>d. Inr d),
      fp_device_delete_print_sync = (\<lambda>d p. (None, filter (\<lambda>q. print_data q \<noteq> print_data p) d)),
      fp_device_clear_storage_sync = (\<lambda>d. (None, [])),
      fp_device_is_open = (\<lambda>d. True),
      fp_device_open_sync = (\<lambda>d. d),
      fp_device_close_sync = (\<lambda>d. d),
      fp_print_equal = (\<lambda>p q. print_data p = print_data q)\<rparr>"

definition ex_priv :: "SessionData option \<Rightarrow> FprintDevicePrivate" where
  "ex_priv s =
     \<lparr>dev_id = 0, dev = ex_dev, session = s, local_storage_checked = False,
      verify_stop_wait_timeout_id = None, clients = [], verify_data = None,
      identify_data = None, enroll_data = 0, current_action = ACTION_NONE,
      current_cancellable = None, current_cancel_invocation = None, emitted = []\<rparr>"

definition ex_session :: SessionData where
  "ex_session = \<lparr>session_invocation = None, sender = '':1.42'', username = ''alice'',
                 verify_status_reported = False\<rparr>"

definition ex_call :: "string \<Rightarrow> string \<Rightarrow> invocation" where
  "ex_call m sndr = \<lparr>method_name = m, inv_sender = sndr\<rparr>"

lemmas ex_defs = ex_dev_def ex_print_def ex_store_def ex_reader_def ex_priv_def ex_session_def
  ex_call_def

definition ex_build_filename :: "string list \<Rightarrow> string" where
  "ex_build_filename xs =
     (case xs of [] \<Rightarrow> [] | x # ys \<Rightarrow> x @ concat (map (\<lambda>y. CHR ''/'' # y) ys))"

definition ex_file_env :: file_storage_env where
  "ex_file_env =
     \<lparr>STATE_DIRECTORY = None,
      g_build_filename = ex_build_filename,
      g_file_get_contents = (\<lambda>path.
         if path = ''/var/lib/fprint/alice/virtual_device_storage/0/7'' then Inr ''alice-7''
         else if path = ''/var/lib/fprint/alice/virtual_device_storage/0/2'' then Inr ''bob-2''
         else Inl G_FILE_ERROR_NOENT),
      fp_print_deserialize = (\<lambda>contents.
         if contents = ''alice-7'' then Some (ex_print 1 ''alice'' 7 None)
         else if contents = ''bob-2'' then Some (ex_print 2 ''bob'' 2 None)
         else None),
      fp_print_compatible = (\<lambda>p d. print_driver p = dev_driver d \<and> print_device_id p = dev_device_id d)\<rparr>"

text \<open>
  A verification in progress, a sequence of events for it (a retry report, the match,
  a second final report, the completion, then \<open>VerifyStop\<close>) and the state it leads
  to; the same verification after its final status was reported; an older and a newer
  print on the device.
\<close>

definition ex_verifying :: FprintDevicePrivate where
  "ex_verifying =
     (ex_priv (Some ex_session))
       \<lparr>current_action := ACTION_VERIFY, current_cancellable := Some False,
        verify_data := Some (ex_print 1 ''alice'' 7 None)\<rparr>"

definition ex_verify_script :: "operation_event list" where
  "ex_verify_script =
     [CALLBACK (MATCH_CB None (Some (FP_DEVICE_RETRY FP_DEVICE_RETRY_TOO_SHORT))),
      CALLBACK (MATCH_CB (Some (ex_print 1 ''alice'' 7 None)) None),
      CALLBACK (MATCH_CB None None),
      CALLBACK (VERIFY_CB True None),
      VERIFY_STOP (ex_call ''VerifyStop'' '':1.42'') []]"

definition ex_verified :: FprintDevicePrivate where
  "ex_verified =
     (ex_priv (Some ex_session))
       \<lparr>emitted :=
          [SIGNAL_VERIFY_STATUS ''verify-swipe-too-short'' False,
           SIGNAL_VERIFY_STATUS ''verify-match'' True,
           G_WARNING ''Verify status already reported. Ignoring'',
           DBUS_COMPLETE ''VerifyStop'' (ex_call ''VerifyStop'' '':1.42'')]\<rparr>"

definition ex_matched :: FprintDevicePrivate where
  "ex_matched =
     (ex_priv (Some (ex_session\<lparr>verify_status_reported := True\<rparr>)))
       \<lparr>current_action := ACTION_VERIFY, current_cancellable := Some False,
        verify_data := Some (ex_print 1 ''alice'' 7 None),
        emitted := [SIGNAL_VERIFY_STATUS ''verify-match'' True]\<rparr>"

definition ex_old :: fp_print where
  "ex_old = ex_print 1 ''bob'' 1 (Some 737000)"

definition ex_new :: fp_print where
  "ex_new = ex_print 2 ''bob'' 2 (Some 738000)"


text \<open>
  The reading of the storage root that picks the first non-empty entry of the
  colon-separated hint, for comparison with \<open>get_storage_path\<close>.
\<close>

definition first_non_empty_entry :: "string \<Rightarrow> string option" where
  "first_non_empty_entry hint = find (\<lambda>e. e \<noteq> []) (g_strsplit hint (CHR '':''))"



section \<open>Basic facts\<close>

lemma range_first_last:
  "[FP_FINGER_FIRST ..< Suc FP_FINGER_LAST] = [1, 2, 3, 4, 5, 6, 7, 8, 9, 10]"
  by (simp add: FP_FINGER_FIRST_def FP_FINGER_LAST_def upt_rec)



lemma g_strsplit_from_first:
  "\<exists>rest. g_strsplit_from c cur s = (rev cur @ takeWhile (\<lambda>x. x \<noteq> c) s) # rest"
proof (induction s arbitrary: cur)
  case Nil
  then show ?case by simp
next
  case (Cons x xs)
  show ?case
  proof (cases "x = c")
    case True
    then show ?thesis by simp
  next
    case False
    then show ?thesis using Cons.IH[of "x # cur"] by simp
  qed
qed

lemma get_storage_path_eq:
  "fst (get_storage_path None env) =
     (case env of
        None \<Rightarrow> FILE_STORAGE_PATH
      | Some path \<Rightarrow>
          if CHR '':'' \<in> set path then takeWhile (\<lambda>x. x \<noteq> CHR '':'') path
          else if path = [] then FILE_STORAGE_PATH
          else path)"
proof (cases env)
  case None
  then show ?thesis by (simp add: get_storage_path_def)
next
  case (Some path)
  obtain rest where r: "g_strsplit_from (CHR '':'') [] path = takeWhile (\<lambda>x. x \<noteq> CHR '':'') path # rest"
    using g_strsplit_from_first[of "CHR '':''" "[]" path] by auto
  show ?thesis
  proof (cases "CHR '':'' \<in> set path")
    case True
    then have "path \<noteq> []" by auto
    with True Some r show ?thesis
      by (simp add: get_storage_path_def g_strsplit_def Let_def)
  next
    case False
    with Some show ?thesis by (simp add: get_storage_path_def)
  qed
qed

lemma emit_simps [simp]:
  "emitted (emit x priv) = emitted priv @ [x]"
  "session (emit x priv) = session priv"
  "dev (emit x priv) = dev priv"
  "current_action (emit x priv) = current_action priv"
  "current_cancellable (emit x priv) = current_cancellable priv"
  "current_cancel_invocation (emit x priv) = current_cancel_invocation priv"
  "verify_data (emit x priv) = verify_data priv"
  "identify_data (emit x priv) = identify_data priv"
  "verify_stop_wait_timeout_id (emit x priv) = verify_stop_wait_timeout_id priv"
  "local_storage_checked (emit x priv) = local_storage_checked priv"
  "clients (emit x priv) = clients priv"
  "enroll_data (emit x priv) = enroll_data priv"
  by (simp_all add: emit_def)

lemma check_claimed_cong:
  "session priv' = session priv \<Longrightarrow>
   fprint_device_check_claimed priv' invoc = fprint_device_check_claimed priv invoc"
  by (simp only: fprint_device_check_claimed_def)

lemma check_claimed_session:
  "fprint_device_check_claimed priv invoc = None \<Longrightarrow>
   get_claim_state_for_invocation invoc = STATE_CLAIMED \<Longrightarrow> \<exists>s. session priv = Some s"
  by (auto simp: fprint_device_check_claimed_def Let_def split: option.splits if_splits)

lemma delete_enrolled_fingers_none_enrolled:
  "\<not> user_has_print_enrolled S h (dev priv) user finger \<Longrightarrow>
   delete_enrolled_fingers S L (priv, h, d) user finger =
     (Some FPRINT_ERROR_NO_ENROLLED_PRINTS, priv, h, d)"
  by (simp add: delete_enrolled_fingers_def)

lemma add_client_simps [simp]:
  "dev (fprint_device_add_client priv sndr) = dev priv"
  "session (fprint_device_add_client priv sndr) = session priv"
  "current_action (fprint_device_add_client priv sndr) = current_action priv"
  by (simp_all add: fprint_device_add_client_def)

lemma add_client_action:
  "fprint_device_add_client (priv\<lparr>current_action := a\<rparr>) sndr =
   (fprint_device_add_client priv sndr)\<lparr>current_action := a\<rparr>"
  by (simp add: fprint_device_add_client_def emit_def)

lemma action_reset':
  "current_action priv = ACTION_NONE \<Longrightarrow>
   (emit x (priv\<lparr>current_action := a\<rparr>))\<lparr>current_action := ACTION_NONE\<rparr> = emit x priv"
  by (simp add: emit_def)

lemma fingername_7: "fingername 7 = ''7''"
  by (simp add: fingername_def hex_digit_def)


subsection \<open>The reconciliation of the local storage only adds warnings\<close>

lemma quiet_refl [simp]: "quiet priv priv"
  by (simp add: quiet_def)

lemma quiet_trans: "quiet a b \<Longrightarrow> quiet b c \<Longrightarrow> quiet a c"
proof -
  assume ab: "quiet a b" and bc: "quiet b c"
  from ab obtain ws where ws: "emitted b = emitted a @ map G_WARNING ws"
    by (auto simp: quiet_def)
  from bc obtain vs where vs: "emitted c = emitted b @ map G_WARNING vs"
    by (auto simp: quiet_def)
  have "emitted c = emitted a @ map G_WARNING (ws @ vs)" using ws vs by simp
  then have "\<exists>us. emitted c = emitted a @ map G_WARNING us" by blast
  then show ?thesis using ab bc by (simp add: quiet_def)
qed

lemma quiet_warning [simp]: "quiet priv (emit (G_WARNING w) priv)"
proof -
  have "emitted (emit (G_WARNING w) priv) = emitted priv @ map G_WARNING [w]"
    by (simp add: emit_def)
  then have "\<exists>ws. emitted (emit (G_WARNING w) priv) = emitted priv @ map G_WARNING ws"
    by blast
  then show ?thesis by (simp add: quiet_def)
qed

lemma quiet_latch [simp]: "quiet priv (priv\<lparr>local_storage_checked := b\<rparr>)"
  by (simp add: quiet_def)

lemma filter_final_warnings [simp]: "filter is_final_verify_status (map G_WARNING ws) = []"
  by (induction ws) (simp_all add: is_final_verify_status_def)

lemma quiet_count:
  "quiet priv priv' \<Longrightarrow> final_verify_status_count priv' = final_verify_status_count priv"
  by (auto simp: quiet_def final_verify_status_count_def)

lemma check_local_storage_loop_quiet:
  "quiet priv (fst (check_local_storage_loop S L dps hps (priv, h)))"
proof (induction hps arbitrary: priv h)
  case Nil
  then show ?case by simp
next
  case (Cons p hps)
  show ?case
  proof (cases "list_ex (\<lambda>dp. fp_print_equal L dp p) dps")
    case True
    then show ?thesis using Cons.IH[of priv h] by simp
  next
    case False
    obtain r h' where del: "print_data_delete S h (dev priv) (print_finger p) (print_username p) = (r, h')"
      by (cases "print_data_delete S h (dev priv) (print_finger p) (print_username p)")
    show ?thesis
    proof (cases "r = 0")
      case True
      then show ?thesis using False del Cons.IH[of priv h'] by simp
    next
      case r: False
      let ?w = "emit (G_WARNING ''Error deleting finger that is unknown to device'') priv"
      have "quiet priv ?w" by simp
      moreover have "quiet ?w (fst (check_local_storage_loop S L dps hps (?w, h')))"
        by (rule Cons.IH)
      ultimately have "quiet priv (fst (check_local_storage_loop S L dps hps (?w, h')))"
        by (rule quiet_trans)
      then show ?thesis using False del r by simp
    qed
  qed
qed

lemma check_local_storage_run_quiet:
  "quiet priv (fst (check_local_storage_run S L d (priv, h)))"
proof -
  let ?p = "priv\<lparr>local_storage_checked := True\<rparr>"
  have a: "quiet priv ?p" by simp
  show ?thesis
  proof (cases "fp_device_list_prints_sync L d")
    case (Inl e)
    have "quiet priv (emit (G_WARNING ''Failed to query prints'') ?p)"
      by (rule quiet_trans[OF a]) simp
    then show ?thesis using Inl
      by (simp add: check_local_storage_run_def Let_def)
  next
    case (Inr dps)
    have "quiet priv (fst (check_local_storage_loop S L dps (load_all_prints S h (dev ?p)) (?p, h)))"
      by (rule quiet_trans[OF a]) (rule check_local_storage_loop_quiet)
    then show ?thesis using Inr
      by (simp add: check_local_storage_run_def Let_def)
  qed
qed

lemma check_local_storage_quiet:
  "quiet priv (fst (check_local_storage S L d (priv, h) found_match error))"
proof -
  let ?w = "emit (G_WARNING ''Device reported that a passed print did not exist'') priv"
  have 1: "quiet priv (fst (check_local_storage_run S L d (?w, h)))"
    by (rule quiet_trans[of priv ?w]) (simp, rule check_local_storage_run_quiet)
  have 2: "quiet priv (fst (check_local_storage_run S L d (priv, h)))"
    by (rule check_local_storage_run_quiet)
  show ?thesis using 1 2
    by (simp add: check_local_storage_def Let_def)
qed


subsection \<open>The invariant of an operation is kept by every callback and by VerifyStop\<close>

lemma live_inv: "live n b priv \<Longrightarrow> operation_inv n b priv"
  by (simp add: operation_inv_def)

lemma inv_live:
  "operation_inv n b priv \<Longrightarrow>
   current_action priv = ACTION_VERIFY \<or> current_action priv = ACTION_IDENTIFY \<Longrightarrow> live n b priv"
  by (simp add: operation_inv_def)

lemma quiet_live: "quiet priv priv' \<Longrightarrow> live n b priv \<Longrightarrow> live n b priv'"
  using quiet_count[of priv priv'] by (simp add: quiet_def live_def reported_def)

lemma quiet_inv: "quiet priv priv' \<Longrightarrow> operation_inv n b priv \<Longrightarrow> operation_inv n b priv'"
  using quiet_count[of priv priv']
  by (auto simp: quiet_def live_def reported_def operation_inv_def split: if_splits)

lemma count_emit:
  "final_verify_status_count (emit x priv) =
     final_verify_status_count priv + (if is_final_verify_status x then 1 else 0)"
  by (simp add: final_verify_status_count_def)

lemma report_verify_status_live:
  assumes "live n b priv" and "report_verify_status priv m e = Some priv'"
  shows "live n b priv' \<and> current_action priv' = current_action priv
         \<and> current_cancellable priv' = current_cancellable priv
         \<and> current_cancel_invocation priv' = current_cancel_invocation priv
         \<and> verify_stop_wait_timeout_id priv' = verify_stop_wait_timeout_id priv"
  using assms
  by (auto simp: report_verify_status_def live_def reported_def Let_def count_emit
        is_final_verify_status_def emit_def final_verify_status_count_def
      split: option.splits if_splits)

lemma stoppable_action_completed_inv:
  assumes "operation_inv n b priv" and "stoppable_action_completed priv = Some priv'"
  shows "operation_inv n b priv'"
  using assms
  by (auto simp: stoppable_action_completed_def operation_inv_def live_def reported_def
        count_emit is_final_verify_status_def final_verify_status_count_def emit_def
      split: option.splits if_splits)

lemma match_cb_live:
  assumes "live n b priv" and "match_cb priv m e = Some priv'"
  shows "live n b priv' \<and> current_action priv' = current_action priv"
  using assms report_verify_status_live[of n b priv _ e priv']
  by (auto simp: match_cb_def Let_def split: if_splits)

lemma live_field_updates [simp]:
  "live n b (priv\<lparr>verify_data := v\<rparr>) = live n b priv"
  "live n b (priv\<lparr>identify_data := i\<rparr>) = live n b priv"
  "live n b (priv\<lparr>verify_stop_wait_timeout_id := t\<rparr>) = live n b priv"
  "live n b (priv\<lparr>current_cancel_invocation := c\<rparr>) = live n b priv"
  "live n b (priv\<lparr>current_cancellable := k\<rparr>) = live n b priv"
  by (simp_all add: live_def reported_def final_verify_status_count_def)

lemma live_emit:
  "\<not> is_final_verify_status x \<Longrightarrow> live n b (emit x priv) = live n b priv"
  by (simp add: live_def reported_def count_emit)

lemma inv_field_updates [simp]:
  "operation_inv n b (priv\<lparr>verify_stop_wait_timeout_id := t\<rparr>) = operation_inv n b priv"
  "operation_inv n b (priv\<lparr>current_cancel_invocation := c\<rparr>) = operation_inv n b priv"
  "operation_inv n b (priv\<lparr>current_cancellable := k\<rparr>) = operation_inv n b priv"
  by (simp_all add: operation_inv_def final_verify_status_count_def)

lemma inv_emit:
  "\<not> is_final_verify_status x \<Longrightarrow> operation_inv n b (emit x priv) = operation_inv n b priv"
  by (simp add: operation_inv_def live_emit count_emit)

lemma not_final [simp]:
  "\<not> is_final_verify_status (G_WARNING w)"
  "\<not> is_final_verify_status (FP_DEVICE_VERIFY v)"
  "\<not> is_final_verify_status (FP_DEVICE_IDENTIFY i)"
  "\<not> is_final_verify_status (DBUS_RETURN_GERROR invoc err)"
  "\<not> is_final_verify_status (DBUS_COMPLETE m invoc)"
  "\<not> is_final_verify_status (G_TIMEOUT_ADD_SECONDS t)"
  "\<not> is_final_verify_status G_CANCELLABLE_CANCEL"
  by (simp_all add: is_final_verify_status_def)

lemma verify_cb_inv:
  assumes "live n b priv" and "verify_cb S L d (priv, h) m e = Some (priv', h')"
  shows "operation_inv n b priv'"
proof (cases "case e of None \<Rightarrow> False | Some x \<Rightarrow> is_retry x")
  case True
  then have "priv' = emit (FP_DEVICE_VERIFY (verify_data priv)) priv"
    using assms(2) by (simp add: verify_cb_def)
  then show ?thesis using assms(1) by (simp add: live_inv live_emit)
next
  case False
  let ?p0 = "priv\<lparr>verify_data := None\<rparr>"
  have l0: "live n b ?p0" using assms(1) by simp
  obtain p1 where p1: "(case e of None \<Rightarrow> Some ?p0
              | Some x \<Rightarrow>
                  (case report_verify_status ?p0 False e of
                     None \<Rightarrow> None
                   | Some q \<Rightarrow>
                       Some (if x \<noteq> G_IO_ERROR_CANCELLED
                             then emit (G_WARNING ''Device reported an error during verify'') q
                             else q))) = Some p1"
    using assms(2) False by (auto simp: verify_cb_def Let_def split: option.splits)
  have l1: "live n b p1"
  proof (cases e)
    case None
    then show ?thesis using p1 l0 by simp
  next
    case (Some x)
    then obtain q where q: "report_verify_status ?p0 False e = Some q"
      using p1 by (auto split: option.splits)
    then have "live n b q" using report_verify_status_live[OF l0 q] by simp
    then show ?thesis using p1 Some q by (auto simp: live_emit split: if_splits)
  qed
  obtain p2 h2 where c: "check_local_storage S L d (p1, h) m e = (p2, h2)"
    by (cases "check_local_storage S L d (p1, h) m e")
  have "quiet p1 p2" using check_local_storage_quiet[of p1 S L d h m e] c by simp
  then have l2: "live n b p2" using l1 quiet_live by blast
  have "stoppable_action_completed p2 = Some priv'"
    using assms(2) False p1 c by (auto simp: verify_cb_def Let_def split: option.splits)
  then show ?thesis using stoppable_action_completed_inv[OF live_inv[OF l2]] by simp
qed

lemma identify_cb_inv:
  assumes "live n b priv" and "identify_cb S L d (priv, h) m e = Some (priv', h')"
  shows "operation_inv n b priv'"
proof (cases "case e of None \<Rightarrow> False | Some x \<Rightarrow> is_retry x")
  case True
  then have "priv' = emit (FP_DEVICE_IDENTIFY (identify_data priv)) priv"
    using assms(2) by (simp add: identify_cb_def)
  then show ?thesis using assms(1) by (simp add: live_inv live_emit)
next
  case False
  let ?p0 = "priv\<lparr>identify_data := None\<rparr>"
  have l0: "live n b ?p0" using assms(1) by simp
  obtain p1 where p1: "(case e of None \<Rightarrow> Some ?p0
              | Some x \<Rightarrow>
                  (case report_verify_status ?p0 False e of
                     None \<Rightarrow> None
                   | Some q \<Rightarrow>
                       Some (if x \<noteq> G_IO_ERROR_CANCELLED
                             then emit (G_WARNING ''Device reported an error during identify'') q
                             else q))) = Some p1"
    using assms(2) False by (auto simp: identify_cb_def Let_def split: option.splits)
  have l1: "live n b p1"
  proof (cases e)
    case None
    then show ?thesis using p1 l0 by simp
  next
    case (Some x)
    then obtain q where q: "report_verify_status ?p0 False e = Some q"
      using p1 by (auto split: option.splits)
    then have "live n b q" using report_verify_status_live[OF l0 q] by simp
    then show ?thesis using p1 Some q by (auto simp: live_emit split: if_splits)
  qed
  obtain p2 h2 where c: "check_local_storage S L d (p1, h) (m \<noteq> None) e = (p2, h2)"
    by (cases "check_local_storage S L d (p1, h) (m \<noteq> None) e")
  have "quiet p1 p2" using check_local_storage_quiet[of p1 S L d h "m \<noteq> None" e] c by simp
  then have l2: "live n b p2" using l1 quiet_live by blast
  have "stoppable_action_completed p2 = Some priv'"
    using assms(2) False p1 c by (auto simp: identify_cb_def Let_def split: option.splits)
  then show ?thesis using stoppable_action_completed_inv[OF live_inv[OF l2]] by simp
qed

lemma g_main_context_iteration_inv:
  assumes "live n b priv" and "g_main_context_iteration S L d ev (priv, h) = Some (priv', h')"
  shows "operation_inv n b priv'"
proof (cases ev)
  case VERIFY_STOP_WAIT_TIMEOUT
  then show ?thesis using assms by (auto simp: g_main_context_iteration_def live_inv)
next
  case (MATCH_CB m e)
  then show ?thesis using assms match_cb_live[of n b priv m e priv']
    by (auto simp: g_main_context_iteration_def live_inv split: option.splits)
next
  case (VERIFY_CB m e)
  then show ?thesis using assms verify_cb_inv[of n b priv S L d h m e priv' h']
    by (simp add: g_main_context_iteration_def)
next
  case (IDENTIFY_CB m e)
  then show ?thesis using assms identify_cb_inv[of n b priv S L d h m e priv' h']
    by (simp add: g_main_context_iteration_def)
qed

lemma verify_has_completed_False:
  "verify_has_completed priv = Some False \<Longrightarrow>
   current_action priv = ACTION_VERIFY \<or> current_action priv = ACTION_IDENTIFY"
  by (auto simp: verify_has_completed_def split: if_splits)

lemma verify_stop_wait_loop_inv:
  "operation_inv n b (fst ph) \<Longrightarrow> verify_stop_wait_loop S L d evs ph = Some ph' \<Longrightarrow>
   operation_inv n b (fst ph')"
proof (induction evs arbitrary: ph)
  case Nil
  then show ?case by (auto split: if_splits option.splits bool.splits)
next
  case (Cons ev evs)
  show ?case
  proof (cases "verify_stop_wait_timeout_id (fst ph) = None")
    case True
    then show ?thesis using Cons.prems by simp
  next
    case False
    show ?thesis
    proof (cases "verify_has_completed (fst ph)")
      case None
      then show ?thesis using Cons.prems False by simp
    next
      case (Some c)
      show ?thesis
      proof (cases c)
        case True
        then show ?thesis using Cons.prems False Some by simp
      next
        case c: False
        then have l: "live n b (fst ph)"
          using inv_live[OF Cons.prems(1)] verify_has_completed_False[of "fst ph"] Some by simp
        obtain q where q: "g_main_context_iteration S L d ev ph = Some q"
          and r: "verify_stop_wait_loop S L d evs q = Some ph'"
          using Cons.prems(2) False Some c by (auto split: option.splits)
        have "operation_inv n b (fst q)"
          using g_main_context_iteration_inv[OF l, of S L d ev "snd ph" "fst q" "snd q"] q by simp
        then show ?thesis using Cons.IH[OF _ r] by simp
      qed
    qed
  qed
qed

lemma stoppable_action_stop_inv:
  assumes "operation_inv n b priv" and "stoppable_action_stop priv invoc = Some priv'"
  shows "operation_inv n b priv'"
proof (cases "current_cancellable priv")
  case None
  then have "stoppable_action_completed (priv\<lparr>current_cancel_invocation := Some invoc\<rparr>) = Some priv'"
    using assms(2) by (auto simp: stoppable_action_stop_def Let_def split: if_splits)
  then show ?thesis
    using stoppable_action_completed_inv[of n b "priv\<lparr>current_cancel_invocation := Some invoc\<rparr>" priv']
          assms(1) by simp
next
  case (Some c)
  then have "priv' = emit G_CANCELLABLE_CANCEL
                       (priv\<lparr>current_cancel_invocation := Some invoc, current_cancellable := Some True\<rparr>)"
    using assms(2) by (auto simp: stoppable_action_stop_def Let_def split: if_splits)
  then show ?thesis using assms(1) by (simp add: inv_emit)
qed

lemma fprint_device_verify_stop_inv:
  assumes "operation_inv n b priv"
      and "fprint_device_verify_stop S L d evs (priv, h) invoc = Some (priv', h')"
  shows "operation_inv n b priv'"
proof (cases "fprint_device_check_claimed priv invoc")
  case (Some e)
  then have "priv' = emit (DBUS_RETURN_GERROR invoc e) priv"
    using assms(2) by (simp add: fprint_device_verify_stop_def)
  then show ?thesis using assms(1) by (simp add: inv_emit)
next
  case c: None
  show ?thesis
  proof (cases "can_stop_action priv ACTION_VERIFY")
    case (Some e)
    then have "priv' = emit (DBUS_RETURN_GERROR invoc e) priv"
      using assms(2) c by (simp add: fprint_device_verify_stop_def)
    then show ?thesis using assms(1) by (simp add: inv_emit)
  next
    case a: None
    show ?thesis
    proof (cases "verify_has_completed priv")
      case None
      then show ?thesis using assms(2) c a by (simp add: fprint_device_verify_stop_def)
    next
      case (Some completed)
      show ?thesis
      proof (cases completed)
        case True
        then have "stoppable_action_stop priv invoc = Some priv'"
          using assms(2) c a Some
          by (auto simp: fprint_device_verify_stop_def split: option.splits)
        then show ?thesis using stoppable_action_stop_inv[OF assms(1)] by simp
      next
        case False
        then obtain s where s: "session priv = Some s"
          using assms(2) c a Some
          by (auto simp: fprint_device_verify_stop_def split: option.splits)
        show ?thesis
        proof (cases "verify_status_reported s")
          case r: False
          then have "stoppable_action_stop priv invoc = Some priv'"
            using assms(2) c a Some False s
            by (auto simp: fprint_device_verify_stop_def split: option.splits)
          then show ?thesis using stoppable_action_stop_inv[OF assms(1)] by simp
        next
          case r: True
          let ?p1 = "(emit (G_TIMEOUT_ADD_SECONDS VERIFY_STOP_DEVICE_WAIT) priv)
                       \<lparr>verify_stop_wait_timeout_id := Some VERIFY_STOP_DEVICE_WAIT,
                        current_cancel_invocation := Some invoc\<rparr>"
          have i1: "operation_inv n b (fst (?p1, h))" using assms(1) by (simp add: inv_emit)
          obtain q h2 where lp: "verify_stop_wait_loop S L d evs (?p1, h) = Some (q, h2)"
            using assms(2) c a Some False s r
            by (auto simp: fprint_device_verify_stop_def Let_def split: option.splits if_splits)
          have iq: "operation_inv n b q"
            using verify_stop_wait_loop_inv[OF i1 lp] by simp
          have res: "(if current_cancel_invocation q = None
                      then Some (q\<lparr>verify_stop_wait_timeout_id := None\<rparr>, h2)
                      else (case stoppable_action_stop
                                   (q\<lparr>verify_stop_wait_timeout_id := None,
                                      current_cancel_invocation := None\<rparr>) invoc of
                              None \<Rightarrow> None
                            | Some p \<Rightarrow> Some (p, h2))) = Some (priv', h')"
            using assms(2) c a Some False s r lp
            by (auto simp: fprint_device_verify_stop_def Let_def split: option.splits if_splits)
          show ?thesis
          proof (cases "current_cancel_invocation q = None")
            case True
            then show ?thesis using res iq by auto
          next
            case False
            then have "stoppable_action_stop
                         (q\<lparr>verify_stop_wait_timeout_id := None,
                            current_cancel_invocation := None\<rparr>) invoc = Some priv'"
              using res by (auto split: option.splits)
            then show ?thesis
              using stoppable_action_stop_inv[of n b
                      "q\<lparr>verify_stop_wait_timeout_id := None, current_cancel_invocation := None\<rparr>"
                      invoc priv'] iq
              by simp
          qed
        qed
      qed
    qed
  qed
qed

lemma run_operation_inv:
  "operation_inv n b (fst ph) \<Longrightarrow> run_operation S L d es ph = Some ph' \<Longrightarrow>
   operation_inv n b (fst ph')"
proof (induction es arbitrary: ph)
  case Nil
  then show ?case by simp
next
  case (Cons e es)
  show ?case
  proof (cases "current_action (fst ph) \<noteq> ACTION_VERIFY \<and> current_action (fst ph) \<noteq> ACTION_IDENTIFY")
    case True
    then show ?thesis using Cons.prems by simp
  next
    case False
    then have l: "live n b (fst ph)" using inv_live[OF Cons.prems(1)] by blast
    show ?thesis
    proof (cases e)
      case (CALLBACK ev)
      then obtain q where q: "g_main_context_iteration S L d ev ph = Some q"
        and r: "run_operation S L d es q = Some ph'"
        using Cons.prems(2) False by (auto split: option.splits if_splits)
      have "operation_inv n b (fst q)"
        using g_main_context_iteration_inv[OF l, of S L d ev "snd ph" "fst q" "snd q"] q by simp
      then show ?thesis using Cons.IH[OF _ r] by simp
    next
      case (VERIFY_STOP invoc evs)
      then obtain q where q: "fprint_device_verify_stop S L d evs ph invoc = Some q"
        and r: "run_operation S L d es q = Some ph'"
        using Cons.prems(2) False by (auto split: option.splits if_splits)
      have "operation_inv n b (fst q)"
        using fprint_device_verify_stop_inv[OF Cons.prems(1), of S L d evs "snd ph" invoc "fst q" "snd q"] q
        by simp
      then show ?thesis using Cons.IH[OF _ r] by simp
    qed
  qed
qed

lemma at_most_one_final_status:
  assumes "session priv \<noteq> None" and "\<not> reported priv"
      and "run_operation S L d es (priv, h) = Some (priv', h')"
  shows "final_verify_status_count priv' \<le> final_verify_status_count priv + 1"
proof -
  have "operation_inv (final_verify_status_count priv) False (fst (priv, h))"
    using assms(1,2) by (simp add: operation_inv_def live_def)
  then have "operation_inv (final_verify_status_count priv) False (fst (priv', h'))"
    using assms(3) by (rule run_operation_inv)
  then show ?thesis
    by (auto simp: operation_inv_def live_def split: if_splits)
qed

lemma reported_until_completion:
  assumes "reported priv"
      and "run_operation S L d es (priv, h) = Some (priv', h')"
  shows "reported priv' \<or>
         (current_action priv' \<noteq> ACTION_VERIFY \<and> current_action priv' \<noteq> ACTION_IDENTIFY)"
proof -
  have "session priv \<noteq> None" using assms(1) by (auto simp: reported_def split: option.splits)
  then have "operation_inv (final_verify_status_count priv - 1) True (fst (priv, h))"
    using assms(1) by (simp add: operation_inv_def live_def)
  then have "operation_inv (final_verify_status_count priv - 1) True (fst (priv', h'))"
    using assms(2) by (rule run_operation_inv)
  then show ?thesis
    by (auto simp: operation_inv_def live_def split: if_splits)
qed


subsection \<open>The wait of VerifyStop\<close>

lemma calm_refl [simp]: "calm priv priv"
  by (simp add: calm_def)

lemma calm_trans: "calm a b \<Longrightarrow> calm b c \<Longrightarrow> calm a c"
proof -
  assume ab: "calm a b" and bc: "calm b c"
  from ab obtain ws where ws: "emitted b = emitted a @ ws" "list_all inert ws"
    by (auto simp: calm_def)
  from bc obtain vs where vs: "emitted c = emitted b @ vs" "list_all inert vs"
    by (auto simp: calm_def)
  have "emitted c = emitted a @ (ws @ vs) \<and> list_all inert (ws @ vs)" using ws vs by simp
  then have "\<exists>us. emitted c = emitted a @ us \<and> list_all inert us" by blast
  then show ?thesis using ab bc by (simp add: calm_def)
qed

lemma calm_emit: "inert x \<Longrightarrow> calm priv (emit x priv)"
proof -
  assume "inert x"
  then have "emitted (emit x priv) = emitted priv @ [x] \<and> list_all inert [x]" by simp
  then have "\<exists>more. emitted (emit x priv) = emitted priv @ more \<and> list_all inert more" by blast
  then show ?thesis by (simp add: calm_def)
qed

lemma calm_target [simp]:
  "calm p (p\<lparr>verify_data := v\<rparr>)"
  "calm p (p\<lparr>identify_data := g\<rparr>)"
  by (simp_all add: calm_def)

lemma inert_warnings: "list_all inert (map G_WARNING ws)"
  by (induction ws) (simp_all add: inert_def)

lemma quiet_calm: "quiet priv priv' \<Longrightarrow> calm priv priv'"
  using inert_warnings by (auto simp: quiet_def calm_def)

lemma idle_step_refl [simp]: "idle_step priv priv"
  by (simp add: idle_step_def)

lemma idle_step_trans: "idle_step a b \<Longrightarrow> idle_step b c \<Longrightarrow> idle_step a c"
  using calm_trans by (auto simp: idle_step_def)

lemma idle_step_emit: "inert x \<Longrightarrow> idle_step priv (emit x priv)"
  by (simp add: idle_step_def calm_emit)

lemma quiet_idle_step: "quiet priv priv' \<Longrightarrow> idle_step priv priv'"
  using quiet_calm[of priv priv'] by (simp add: idle_step_def quiet_def)

lemma calm_reported: "calm p p' \<Longrightarrow> reported p' = reported p"
  by (simp add: calm_def reported_def)

lemma idle_step_reported: "idle_step p p' \<Longrightarrow> reported p' = reported p"
  by (simp add: idle_step_def calm_reported)

lemma idle_step_has_completed: "idle_step p p' \<Longrightarrow> verify_has_completed p' = verify_has_completed p"
  by (simp add: idle_step_def calm_def verify_has_completed_def)

lemma report_verify_status_reported:
  assumes "reported p"
  shows "\<exists>p'. report_verify_status p m e = Some p' \<and> idle_step p p'"
proof -
  obtain s where s: "session p = Some s" "verify_status_reported s"
    using assms by (auto simp: reported_def split: option.splits)
  show ?thesis
  proof (cases "case e of None \<Rightarrow> True | Some x \<Rightarrow> \<not> is_retry x")
    case True
    then have "report_verify_status p m e =
        Some (if e \<noteq> Some G_IO_ERROR_CANCELLED
              then emit (G_WARNING ''Verify status already reported. Ignoring'') p else p)"
      using s by (simp add: report_verify_status_def)
    then show ?thesis by (simp add: quiet_idle_step)
  next
    case False
    then have "report_verify_status p m e =
        Some (emit (SIGNAL_VERIFY_STATUS (verify_result_to_name m e) False) p)"
      using s by (simp add: report_verify_status_def)
    then show ?thesis by (simp add: idle_step_emit inert_def)
  qed
qed

lemma non_completing_step:
  assumes "reported p" and "non_completing ev"
  shows "\<exists>p'. g_main_context_iteration S L d ev (p, h) = Some (p', h) \<and> idle_step p p'"
proof (cases ev)
  case VERIFY_STOP_WAIT_TIMEOUT
  then show ?thesis using assms(2) by (simp add: non_completing_def)
next
  case (MATCH_CB m e)
  then have ok: "case e of None \<Rightarrow> True | Some x \<Rightarrow> is_retry x"
    using assms(2) by (simp add: non_completing_def)
  obtain p' where "report_verify_status p
      (m \<noteq> None \<and> \<not> g_cancellable_is_cancelled (current_cancellable p)) e = Some p'"
      "idle_step p p'"
    using report_verify_status_reported[OF assms(1)] by blast
  then show ?thesis using MATCH_CB ok
    by (simp add: g_main_context_iteration_def match_cb_def)
next
  case (VERIFY_CB m e)
  then have "case e of None \<Rightarrow> False | Some x \<Rightarrow> is_retry x"
    using assms(2) by (simp add: non_completing_def)
  then show ?thesis using VERIFY_CB
    by (simp add: g_main_context_iteration_def verify_cb_def idle_step_emit inert_def)
next
  case (IDENTIFY_CB m e)
  then have "case e of None \<Rightarrow> False | Some x \<Rightarrow> is_retry x"
    using assms(2) by (simp add: non_completing_def)
  then show ?thesis using IDENTIFY_CB
    by (simp add: g_main_context_iteration_def identify_cb_def idle_step_emit inert_def)
qed

lemma stoppable_action_completed_replies:
  assumes "session p \<noteq> None"
      and "current_action p = ACTION_VERIFY \<or> current_action p = ACTION_IDENTIFY"
      and "current_cancel_invocation p = Some invoc"
  shows "\<exists>p'. stoppable_action_completed p = Some p'
              \<and> emitted p' = emitted p @ [DBUS_COMPLETE ''VerifyStop'' invoc]
              \<and> current_action p' = ACTION_NONE \<and> current_cancellable p' = None
              \<and> current_cancel_invocation p' = None \<and> \<not> reported p'
              \<and> verify_stop_wait_timeout_id p' = verify_stop_wait_timeout_id p"
  using assms
  by (auto simp: stoppable_action_completed_def reported_def emit_def split: option.splits)

lemma completing_tail:
  assumes i: "calm p p1" and r: "reported p"
      and a: "current_action p = ACTION_VERIFY \<or> current_action p = ACTION_IDENTIFY"
      and c: "current_cancel_invocation p = Some invoc"
  shows "\<exists>p' h'. (case check_local_storage S L d (p1, h) fm e of
                    (q, h2) \<Rightarrow> (case stoppable_action_completed q of
                                  None \<Rightarrow> None | Some q' \<Rightarrow> Some (q', h2))) = Some (p', h')
                 \<and> stop_replied invoc p p'"
proof -
  obtain q h2 where q: "check_local_storage S L d (p1, h) fm e = (q, h2)"
    by (cases "check_local_storage S L d (p1, h) fm e")
  have "quiet p1 q" using check_local_storage_quiet[of p1 S L d h fm e] q by simp
  then have pq: "calm p q" using i quiet_calm calm_trans by blast
  then have sq: "session q \<noteq> None" using r
    by (auto simp: calm_def reported_def split: option.splits)
  have aq: "current_action q = ACTION_VERIFY \<or> current_action q = ACTION_IDENTIFY"
    using pq a by (simp add: calm_def)
  have cq: "current_cancel_invocation q = Some invoc" using pq c by (simp add: calm_def)
  obtain p' where p': "stoppable_action_completed q = Some p'"
      "emitted p' = emitted q @ [DBUS_COMPLETE ''VerifyStop'' invoc]"
      "current_action p' = ACTION_NONE" "current_cancellable p' = None"
      "current_cancel_invocation p' = None" "\<not> reported p'"
      "verify_stop_wait_timeout_id p' = verify_stop_wait_timeout_id q"
    using stoppable_action_completed_replies[OF sq aq cq] by blast
  obtain more where more: "emitted q = emitted p @ more" "list_all inert more"
    using pq by (auto simp: calm_def)
  have "\<exists>more. emitted p' = emitted p @ more @ [DBUS_COMPLETE ''VerifyStop'' invoc]
                 \<and> list_all inert more"
    using p'(2) more by auto
  then have "stop_replied invoc p p'"
    using p' pq by (simp add: stop_replied_def calm_def)
  then show ?thesis using q p'(1) by simp
qed

lemma report_verify_status_calm:
  assumes "reported p" and "calm p p0"
  shows "\<exists>p1. report_verify_status p0 m e = Some p1 \<and> calm p p1"
proof -
  have "reported p0" using assms by (simp add: calm_reported)
  then obtain p1 where "report_verify_status p0 m e = Some p1" "idle_step p0 p1"
    using report_verify_status_reported by blast
  then show ?thesis using assms(2) calm_trans by (auto simp: idle_step_def)
qed

lemma completing_step:
  assumes r: "reported p"
      and a: "current_action p = ACTION_VERIFY \<or> current_action p = ACTION_IDENTIFY"
      and c: "current_cancel_invocation p = Some invoc"
      and ev: "completing ev"
  shows "\<exists>p' h'. g_main_context_iteration S L d ev (p, h) = Some (p', h') \<and> stop_replied invoc p p'"
proof (cases ev)
  case VERIFY_STOP_WAIT_TIMEOUT
  then show ?thesis using ev by (simp add: completing_def)
next
  case (MATCH_CB m e)
  then show ?thesis using ev by (simp add: completing_def)
next
  case (VERIFY_CB m e)
  then have nr: "\<not> (case e of None \<Rightarrow> False | Some x \<Rightarrow> is_retry x)"
    using ev by (auto simp: completing_def split: option.splits)
  let ?p0 = "p\<lparr>verify_data := None\<rparr>"
  have "\<exists>p1. (case e of None \<Rightarrow> Some ?p0
              | Some x \<Rightarrow>
                  (case report_verify_status ?p0 False e of
                     None \<Rightarrow> None
                   | Some q \<Rightarrow>
                       Some (if x \<noteq> G_IO_ERROR_CANCELLED
                             then emit (G_WARNING ''Device reported an error during verify'') q
                             else q))) = Some p1 \<and> calm p p1"
  proof (cases e)
    case None
    then show ?thesis by simp
  next
    case (Some x)
    obtain q where q: "report_verify_status ?p0 False e = Some q" "calm p q"
      using report_verify_status_calm[OF r, of ?p0 False e] by auto
    have "calm p (emit (G_WARNING ''Device reported an error during verify'') q)"
      using q(2) calm_trans[OF q(2) calm_emit] by (simp add: inert_def)
    then show ?thesis using Some q by simp
  qed
  then obtain p1 where p1: "(case e of None \<Rightarrow> Some ?p0
              | Some x \<Rightarrow>
                  (case report_verify_status ?p0 False e of
                     None \<Rightarrow> None
                   | Some q \<Rightarrow>
                       Some (if x \<noteq> G_IO_ERROR_CANCELLED
                             then emit (G_WARNING ''Device reported an error during verify'') q
                             else q))) = Some p1" and cp: "calm p p1"
    by blast
  show ?thesis
    using completing_tail[OF cp r a c, of S L d h m e] VERIFY_CB nr p1
    by (simp add: g_main_context_iteration_def verify_cb_def Let_def)
next
  case (IDENTIFY_CB m e)
  then have nr: "\<not> (case e of None \<Rightarrow> False | Some x \<Rightarrow> is_retry x)"
    using ev by (auto simp: completing_def split: option.splits)
  let ?p0 = "p\<lparr>identify_data := None\<rparr>"
  have "\<exists>p1. (case e of None \<Rightarrow> Some ?p0
              | Some x \<Rightarrow>
                  (case report_verify_status ?p0 False e of
                     None \<Rightarrow> None
                   | Some q \<Rightarrow>
                       Some (if x \<noteq> G_IO_ERROR_CANCELLED
                             then emit (G_WARNING ''Device reported an error during identify'') q
                             else q))) = Some p1 \<and> calm p p1"
  proof (cases e)
    case None
    then show ?thesis by simp
  next
    case (Some x)
    obtain q where q: "report_verify_status ?p0 False e = Some q" "calm p q"
      using report_verify_status_calm[OF r, of ?p0 False e] by auto
    have "calm p (emit (G_WARNING ''Device reported an error during identify'') q)"
      using q(2) calm_trans[OF q(2) calm_emit] by (simp add: inert_def)
    then show ?thesis using Some q by simp
  qed
  then obtain p1 where p1: "(case e of None \<Rightarrow> Some ?p0
              | Some x \<Rightarrow>
                  (case report_verify_status ?p0 False e of
                     None \<Rightarrow> None
                   | Some q \<Rightarrow>
                       Some (if x \<noteq> G_IO_ERROR_CANCELLED
                             then emit (G_WARNING ''Device reported an error during identify'') q
                             else q))) = Some p1" and cp: "calm p p1"
    by blast
  show ?thesis
    using completing_tail[OF cp r a c, of S L d h "m \<noteq> None" e] IDENTIFY_CB nr p1
    by (simp add: g_main_context_iteration_def identify_cb_def Let_def)
qed

lemma wait_loop_timeout:
  assumes "reported p" and "verify_has_completed p = Some False"
      and "verify_stop_wait_timeout_id p = Some t" and "list_all non_completing pre"
  shows "\<exists>p'. verify_stop_wait_loop S L d (pre @ VERIFY_STOP_WAIT_TIMEOUT # rest) (p, h) =
                 Some (p'\<lparr>verify_stop_wait_timeout_id := None\<rparr>, h)
              \<and> idle_step p p'"
  using assms
proof (induction pre arbitrary: p)
  case Nil
  then have "verify_stop_wait_loop S L d (VERIFY_STOP_WAIT_TIMEOUT # rest) (p, h) =
               Some (p\<lparr>verify_stop_wait_timeout_id := None\<rparr>, h)"
    by (cases rest) (simp_all add: g_main_context_iteration_def)
  then show ?case by auto
next
  case (Cons ev pre)
  obtain p1 where p1: "g_main_context_iteration S L d ev (p, h) = Some (p1, h)" "idle_step p p1"
    using non_completing_step[of p ev S L d h] Cons.prems by auto
  have "reported p1" "verify_has_completed p1 = Some False" "verify_stop_wait_timeout_id p1 = Some t"
    using p1(2) Cons.prems idle_step_reported[OF p1(2)] idle_step_has_completed[OF p1(2)]
    by (simp_all add: idle_step_def calm_def)
  then obtain p' where p': "verify_stop_wait_loop S L d (pre @ VERIFY_STOP_WAIT_TIMEOUT # rest) (p1, h) =
                 Some (p'\<lparr>verify_stop_wait_timeout_id := None\<rparr>, h)" "idle_step p1 p'"
    using Cons.IH[of p1] Cons.prems(4) by auto
  have "verify_stop_wait_loop S L d ((ev # pre) @ VERIFY_STOP_WAIT_TIMEOUT # rest) (p, h) =
          Some (p'\<lparr>verify_stop_wait_timeout_id := None\<rparr>, h)"
    using Cons.prems(2,3) p1(1) p'(1) by simp
  then show ?case using idle_step_trans[OF p1(2) p'(2)] by blast
qed

lemma stop_replied_after_calm:
  assumes "calm p p1" and "stop_replied invoc p1 p'"
  shows "stop_replied invoc p p'"
proof -
  obtain ws where ws: "emitted p1 = emitted p @ ws" "list_all inert ws"
    using assms(1) by (auto simp: calm_def)
  obtain vs where vs: "emitted p' = emitted p1 @ vs @ [DBUS_COMPLETE ''VerifyStop'' invoc]"
      "list_all inert vs"
    using assms(2) by (auto simp: stop_replied_def)
  have "emitted p' = emitted p @ (ws @ vs) @ [DBUS_COMPLETE ''VerifyStop'' invoc]
        \<and> list_all inert (ws @ vs)"
    using ws vs by simp
  then have "\<exists>more. emitted p' = emitted p @ more @ [DBUS_COMPLETE ''VerifyStop'' invoc]
                 \<and> list_all inert more" by blast
  then show ?thesis using assms by (simp add: stop_replied_def calm_def)
qed

lemma wait_loop_completes:
  assumes "reported p" and "verify_has_completed p = Some False"
      and "verify_stop_wait_timeout_id p = Some t"
      and "current_cancel_invocation p = Some invoc"
      and "list_all non_completing pre" and "completing ev"
  shows "\<exists>p' h'. verify_stop_wait_loop S L d (pre @ ev # rest) (p, h) = Some (p', h')
              \<and> stop_replied invoc p p'"
  using assms
proof (induction pre arbitrary: p)
  case Nil
  have a: "current_action p = ACTION_VERIFY \<or> current_action p = ACTION_IDENTIFY"
    using Nil.prems(2) by (rule verify_has_completed_False)
  obtain p' h' where p': "g_main_context_iteration S L d ev (p, h) = Some (p', h')"
      "stop_replied invoc p p'"
    using completing_step[OF Nil.prems(1) a Nil.prems(4) Nil.prems(6), of S L d h] by blast
  have "verify_has_completed p' = Some True"
    using p'(2) by (simp add: stop_replied_def verify_has_completed_def)
  then have "verify_stop_wait_loop S L d rest (p', h') = Some (p', h')"
    by (cases rest) simp_all
  then have "verify_stop_wait_loop S L d (ev # rest) (p, h) = Some (p', h')"
    using Nil.prems(2,3) p'(1) by simp
  then show ?case using p'(2) by auto
next
  case (Cons e pre)
  obtain p1 where p1: "g_main_context_iteration S L d e (p, h) = Some (p1, h)" "idle_step p p1"
    using non_completing_step[of p e S L d h] Cons.prems by auto
  have "reported p1" "verify_has_completed p1 = Some False" "verify_stop_wait_timeout_id p1 = Some t"
    "current_cancel_invocation p1 = Some invoc"
    using p1(2) Cons.prems idle_step_reported[OF p1(2)] idle_step_has_completed[OF p1(2)]
    by (simp_all add: idle_step_def calm_def)
  then obtain p' h' where p': "verify_stop_wait_loop S L d (pre @ ev # rest) (p1, h) = Some (p', h')"
      "stop_replied invoc p1 p'"
    using Cons.IH[of p1] Cons.prems(5,6) by auto
  have "verify_stop_wait_loop S L d ((e # pre) @ ev # rest) (p, h) = Some (p', h')"
    using Cons.prems(2,3) p1(1) p'(1) by simp
  moreover have "stop_replied invoc p p'"
    using stop_replied_after_calm[OF _ p'(2)] p1(2) by (simp add: idle_step_def)
  ultimately show ?case by blast
qed

lemma verify_stop_waits:
  assumes s: "session priv = Some s" and snd: "inv_sender invoc = sender s"
      and si: "session_invocation s = None" and mn: "method_name invoc = ''VerifyStop''"
      and rep: "verify_status_reported s" and hc: "verify_has_completed priv = Some False"
      and ci: "current_cancel_invocation priv = None"
      and ti: "verify_stop_wait_timeout_id priv = None"
  shows "fprint_device_verify_stop S L d evs (priv, h) invoc =
           (case verify_stop_wait_loop S L d evs
                   ((emit (G_TIMEOUT_ADD_SECONDS VERIFY_STOP_DEVICE_WAIT) priv)
                      \<lparr>verify_stop_wait_timeout_id := Some VERIFY_STOP_DEVICE_WAIT,
                       current_cancel_invocation := Some invoc\<rparr>, h) of
              None \<Rightarrow> None
            | Some (q, h') \<Rightarrow>
                if current_cancel_invocation q = None
                then Some (q\<lparr>verify_stop_wait_timeout_id := None\<rparr>, h')
                else (case stoppable_action_stop
                             (q\<lparr>verify_stop_wait_timeout_id := None,
                                current_cancel_invocation := None\<rparr>) invoc of
                        None \<Rightarrow> None
                      | Some p \<Rightarrow> Some (p, h')))"
proof -
  have c: "fprint_device_check_claimed priv invoc = None"
    using s snd si mn
    by (simp add: fprint_device_check_claimed_def get_claim_state_for_invocation_def)
  have a: "current_action priv = ACTION_VERIFY \<or> current_action priv = ACTION_IDENTIFY"
    using hc by (rule verify_has_completed_False)
  have st: "can_stop_action priv ACTION_VERIFY = None"
    using a ci by (auto simp: can_stop_action_def)
  show ?thesis
    using c st hc s rep ti ci
    by (simp add: fprint_device_verify_stop_def Let_def split: option.splits prod.splits)
qed


subsection \<open>The order of the garbage collection\<close>

text \<open>
  On prints with Julian days below \<open>2^31\<close> the comparison function is negative or zero
  only when its first argument is at least as new as its second, so the sorted array
  has the newest print first. Removing the prints known to the host keeps that order,
  and the print that is deleted is the first of what remains: it is at least as new as
  every print of the device that equals no print of the host.
\<close>

lemma sint_diff_small:
  fixes x y :: "32 word"
  assumes "uint x < 2 ^ 31" and "uint y < 2 ^ 31"
  shows "sint (y - x) = uint y - uint x"
proof -
  have x0: "- (2 ^ 31) \<le> uint x" and y0: "- (2 ^ 31) \<le> uint y"
    by (rule order_trans[where y = 0]; simp)+
  have "signed_take_bit 31 (uint x) = uint x"
    using assms(1) x0 by (rule signed_take_bit_int_eq_self[rotated])
  then have x: "sint x = uint x" by (simp add: sint_uint)
  have "signed_take_bit 31 (uint y) = uint y"
    using assms(2) y0 by (rule signed_take_bit_int_eq_self[rotated])
  then have y: "sint y = uint y" by (simp add: sint_uint)
  have x1: "0 \<le> uint x" and y1: "0 \<le> uint y" by simp_all
  have "sint (y - x) = signed_take_bit 31 (sint y - sint x)"
    by (simp add: sint_word_diff)
  also have "\<dots> = sint y - sint x"
    unfolding x y by (rule signed_take_bit_int_eq_self) (use assms x1 y1 in linarith)+
  finally show ?thesis by (simp add: x y)
qed

lemma garbage_collect_sort_sign:
  assumes "uint (julian a) < 2 ^ 31" and "uint (julian b) < 2 ^ 31"
  shows "fst (garbage_collect_sort G st a b) \<le> 0 \<Longrightarrow> julian b \<le> julian a"
    and "0 < fst (garbage_collect_sort G st a b) \<Longrightarrow> julian a \<le> julian b"
proof -
  have d: "julian a \<noteq> julian b \<Longrightarrow>
      fst (garbage_collect_sort G st a b) = uint (julian b) - uint (julian a)"
    using sint_diff_small[OF assms]
    by (simp add: garbage_collect_sort_def julian_def Let_def)
  show "fst (garbage_collect_sort G st a b) \<le> 0 \<Longrightarrow> julian b \<le> julian a"
    using d by (cases "julian a = julian b") (simp_all add: word_le_def)
  show "0 < fst (garbage_collect_sort G st a b) \<Longrightarrow> julian a \<le> julian b"
    using d by (cases "julian a = julian b") (simp_all add: word_le_def)
qed

lemma insert_sorted_set:
  "set (fst (g_ptr_array_insert_sorted G x ys st)) = insert x (set ys)"
proof (induction ys arbitrary: st)
  case Nil
  show ?case by simp
next
  case (Cons y ys)
  obtain c st' where c: "garbage_collect_sort G st x y = (c, st')"
    by (cases "garbage_collect_sort G st x y")
  obtain zs st'' where z: "g_ptr_array_insert_sorted G x ys st' = (zs, st'')"
    by (cases "g_ptr_array_insert_sorted G x ys st'")
  have "set zs = insert x (set ys)" using Cons.IH[of st'] z by simp
  then show ?case using c z by auto
qed

lemma insert_sorted_newest_first:
  assumes "newest_first ys" and "dated (x # ys)"
  shows "newest_first (fst (g_ptr_array_insert_sorted G x ys st))"
  using assms
proof (induction ys arbitrary: st)
  case Nil
  then show ?case by (simp add: newest_first_def)
next
  case (Cons y ys)
  obtain c st' where c: "garbage_collect_sort G st x y = (c, st')"
    by (cases "garbage_collect_sort G st x y")
  have dx: "uint (julian x) < 2 ^ 31" and dy: "uint (julian y) < 2 ^ 31"
    using Cons.prems(2) by (simp_all add: dated_def)
  show ?case
  proof (cases "c \<le> 0")
    case True
    then have "julian y \<le> julian x"
      using garbage_collect_sort_sign(1)[OF dx dy, of G st] c by simp
    then show ?thesis
      using Cons.prems(1) True c by (auto simp: newest_first_def)
  next
    case False
    then have xy: "julian x \<le> julian y"
      using garbage_collect_sort_sign(2)[OF dx dy, of G st] c by simp
    have "newest_first (fst (g_ptr_array_insert_sorted G x ys st'))"
      using Cons.IH[of st'] Cons.prems by (simp add: newest_first_def dated_def)
    then show ?thesis
      using Cons.prems(1) False c xy insert_sorted_set[of G x ys st']
      by (auto simp: newest_first_def split: prod.splits)
  qed
qed

lemma sort_set: "set (fst (g_ptr_array_sort G xs st)) = set xs"
proof (induction xs arbitrary: st)
  case Nil
  show ?case by simp
next
  case (Cons x xs)
  obtain ys st' where s: "g_ptr_array_sort G xs st = (ys, st')"
    by (cases "g_ptr_array_sort G xs st")
  then have "set ys = set xs" using Cons.IH[of st] by simp
  then show ?case using s insert_sorted_set[of G x ys st'] by simp
qed

lemma sort_newest_first:
  "dated xs \<Longrightarrow> newest_first (fst (g_ptr_array_sort G xs st))"
proof (induction xs arbitrary: st)
  case Nil
  show ?case by (simp add: newest_first_def)
next
  case (Cons x xs)
  obtain ys st' where s: "g_ptr_array_sort G xs st = (ys, st')"
    by (cases "g_ptr_array_sort G xs st")
  have ys: "newest_first ys" using Cons.IH[of st] Cons.prems s by (simp add: dated_def)
  have "set ys = set xs" using sort_set[of G xs st] s by simp
  then have "dated (x # ys)" using Cons.prems by (simp add: dated_def list_all_iff)
  then show ?case using insert_sorted_newest_first[OF ys, of x G st'] s by simp
qed

lemma remove_first_equal_set: "set (remove_first_equal eq n xs) \<subseteq> set xs"
  by (induction xs) auto

lemma remove_first_equal_keeps:
  "p \<in> set xs \<Longrightarrow> \<not> eq p n \<Longrightarrow> p \<in> set (remove_first_equal eq n xs)"
  by (induction xs) auto

lemma remove_first_equal_newest_first:
  "newest_first xs \<Longrightarrow> newest_first (remove_first_equal eq n xs)"
  using remove_first_equal_set[of eq n]
  by (induction xs) (auto simp: newest_first_def)

text \<open>
  For one print of the host at most one print of the device is removed: the first
  one equal to it.
\<close>

lemma remove_first_equal_removes_one:
  "eq x needle \<Longrightarrow> remove_first_equal eq needle [x, x] = [x]"
  by simp

lemma fold_remove_newest_first:
  "newest_first xs \<Longrightarrow>
   newest_first (fold (\<lambda>host_print dps. remove_first_equal eq host_print dps) hs xs)"
  by (induction hs arbitrary: xs) (simp_all add: remove_first_equal_newest_first)

lemma fold_remove_keeps:
  "p \<in> set xs \<Longrightarrow> \<forall>hp\<in>set hs. \<not> eq p hp \<Longrightarrow>
   p \<in> set (fold (\<lambda>host_print dps. remove_first_equal eq host_print dps) hs xs)"
  by (induction hs arbitrary: xs) (simp_all add: remove_first_equal_keeps)

lemma fold_remove_set:
  "set (fold (\<lambda>host_print dps. remove_first_equal eq host_print dps) hs xs) \<subseteq> set xs"
proof (induction hs arbitrary: xs)
  case Nil
  show ?case by simp
next
  case (Cons h hs)
  show ?case using Cons.IH[of "remove_first_equal eq h xs"] remove_first_equal_set[of eq h xs]
    by auto
qed

lemma try_delete_print_deletes_a_newest:
  assumes l: "fp_device_list_prints_sync L d = Inr device_prints"
    and dt: "dated device_prints"
    and r: "try_delete_print S L G (priv, h, d, pos) = (True, priv', d', pos')"
  shows "\<exists>first\<in>set device_prints.
           fp_device_delete_print_sync L d first = (None, d')
           \<and> (\<forall>p\<in>set device_prints.
                 (\<forall>host_print\<in>set (load_all_prints S h (dev priv)). \<not> fp_print_equal L p host_print)
                 \<longrightarrow> julian p \<le> julian first)"
proof -
  define st0 where "st0 = \<lparr>sort_rand = (\<lambda>_. 0), rand_pos = pos\<rparr>"
  obtain arr st where s: "g_ptr_array_sort G device_prints st0 = (arr, st)"
    by (cases "g_ptr_array_sort G device_prints st0")
  define candidates where
    "candidates = fold (\<lambda>host_print dps. remove_first_equal (fp_print_equal L) host_print dps)
                    (load_all_prints S h (dev priv)) arr"
  have set_arr: "set arr = set device_prints"
    using sort_set[of G device_prints st0] s by simp
  have "newest_first arr"
    using sort_newest_first[OF dt, of G st0] s by simp
  then have nf: "newest_first candidates"
    unfolding candidates_def by (rule fold_remove_newest_first)
  have sub: "set candidates \<subseteq> set device_prints"
    using fold_remove_set[of "fp_print_equal L" "load_all_prints S h (dev priv)" arr] set_arr
    unfolding candidates_def by simp
  have unf: "try_delete_print S L G (priv, h, d, pos) =
      (case candidates of
         [] \<Rightarrow> (False, priv, d, rand_pos st)
       | first # _ \<Rightarrow>
           (case fp_device_delete_print_sync L d first of
              (Some e, d') \<Rightarrow>
                (False, emit (G_WARNING ''Failed to garbage collect a print'') priv, d', rand_pos st)
            | (None, d') \<Rightarrow> (True, priv, d', rand_pos st)))"
    using l s unfolding try_delete_print_def candidates_def st0_def by simp
  from r unf obtain first rest where c: "candidates = first # rest"
    by (cases candidates) auto
  have del: "fp_device_delete_print_sync L d first = (None, d')"
    using r unf c by (auto split: prod.splits option.splits)
  have first: "first \<in> set device_prints" using sub c by auto
  have "julian p \<le> julian first"
    if p: "p \<in> set device_prints"
      and ne: "\<forall>host_print\<in>set (load_all_prints S h (dev priv)). \<not> fp_print_equal L p host_print"
    for p
  proof -
    have "p \<in> set candidates"
      unfolding candidates_def using p set_arr ne by (intro fold_remove_keeps) simp_all
    then show ?thesis using nf c by (auto simp: newest_first_def)
  qed
  then show ?thesis using first del by blast
qed


subsection \<open>Evaluation at the concrete instances\<close>

lemmas ex_eval_defs =
  ex_priv_def ex_session_def ex_call_def ex_dev_def
  g_main_context_iteration_def match_cb_def report_verify_status_def verify_cb_def
  check_local_storage_def stoppable_action_completed_def fprint_device_verify_stop_def
  fprint_device_check_claimed_def get_claim_state_for_invocation_def can_stop_action_def
  verify_has_completed_def stoppable_action_stop_def g_cancellable_is_cancelled_def
  verify_result_to_name_def is_retry_def emit_def Let_def VERIFY_STOP_DEVICE_WAIT_def

lemma ex_verify_run:
  "run_operation ex_store ex_reader [ex_print 1 ''alice'' 7 None] ex_verify_script
     (ex_verifying, [ex_print 1 ''alice'' 7 None]) = Some (ex_verified, [ex_print 1 ''alice'' 7 None])"
  by (simp add: ex_verify_script_def ex_verifying_def ex_verified_def ex_priv_def ex_session_def
      ex_call_def
      g_main_context_iteration_def match_cb_def report_verify_status_def verify_cb_def
      check_local_storage_def stoppable_action_completed_def fprint_device_verify_stop_def
      fprint_device_check_claimed_def get_claim_state_for_invocation_def can_stop_action_def
      verify_has_completed_def stoppable_action_stop_def g_cancellable_is_cancelled_def
      verify_result_to_name_def is_retry_def emit_def Let_def ex_dev_def)

lemma garbage_collect_sort_old_new: "garbage_collect_sort G st ex_old ex_new = (1000, st)"
  by (simp add: garbage_collect_sort_def ex_old_def ex_new_def ex_print_def)

lemma garbage_collect_sort_new_old: "garbage_collect_sort G st ex_new ex_old = (-1000, st)"
  by (simp add: garbage_collect_sort_def ex_old_def ex_new_def ex_print_def)

lemma ex_reader_list: "fp_device_list_prints_sync ex_reader d = Inr d"
  by (simp add: ex_reader_def)

lemma ex_store_empty: "load_all_prints ex_store [] d = []"
  by (simp add: load_all_prints_def ex_store_def List.map_filter_def)

lemma ex_reader_delete_new:
  "fp_device_delete_print_sync ex_reader [ex_old, ex_new] ex_new = (None, [ex_old])"
  "fp_device_delete_print_sync ex_reader [ex_new, ex_old] ex_new = (None, [ex_old])"
  by (simp_all add: ex_reader_def ex_old_def ex_new_def ex_print_def fingername_def hex_digit_def)


section \<open>The claims\<close>

subsection \<open>VerifyStart with the finger name "any"\<close>

text \<open>
  Claim C2, as the code has it. On a device claimed by the caller with no action in
  progress, \<open>VerifyStart("any")\<close> loads the acting user's prints. With no print the call
  fails with \<open>NoEnrolledPrints\<close>. With exactly one print, stored under an anatomical
  slot, the operation is a verification against that print, whether or not the reader
  supports identification, and \<open>VerifyFingerSelected\<close> carries the name of that print's
  finger. With two or more prints on a reader that supports identification the
  operation is an identification over the whole gallery, and \<open>VerifyFingerSelected\<close>
  carries \<open>"any"\<close>.
\<close>

theorem verify_start_any:
  assumes "session priv = Some s" and "inv_sender invoc = sender s"
      and "session_invocation s = None" and "method_name invoc = ''VerifyStart''"
      and "current_action priv = ACTION_NONE"
      and "gallery = load_user_prints S h (dev priv) (Some (username s))"
  shows "(gallery = [] \<longrightarrow>
            fprint_device_verify_start S h priv invoc (Some ''any'') =
              Some (emit (DBUS_RETURN_GERROR invoc FPRINT_ERROR_NO_ENROLLED_PRINTS) priv))
       \<and> (\<forall>p. gallery = [p] \<and> print_finger p \<noteq> FP_FINGER_UNKNOWN \<longrightarrow>
            fprint_device_verify_start S h priv invoc (Some ''any'') =
              Some (emit (SIGNAL_VERIFY_FINGER_SELECTED (fp_finger_to_name (print_finger p)))
                     (emit (DBUS_COMPLETE ''VerifyStart'' invoc)
                       (emit (FP_DEVICE_VERIFY (Some p))
                         (priv\<lparr>current_action := ACTION_VERIFY,
                               current_cancellable := Some False,
                               verify_data := Some p\<rparr>)))))
       \<and> (2 \<le> length gallery \<and> FP_DEVICE_FEATURE_IDENTIFY (dev priv) \<longrightarrow>
            fprint_device_verify_start S h priv invoc (Some ''any'') =
              Some (emit (SIGNAL_VERIFY_FINGER_SELECTED (Some ''any''))
                     (emit (DBUS_COMPLETE ''VerifyStart'' invoc)
                       (emit (FP_DEVICE_IDENTIFY (Some gallery))
                         (priv\<lparr>current_action := ACTION_IDENTIFY,
                               current_cancellable := Some False,
                               identify_data := Some gallery\<rparr>)))))"
proof -
  have c: "fprint_device_check_claimed priv invoc = None"
    using assms(1-4)
    by (simp add: fprint_device_check_claimed_def get_claim_state_for_invocation_def)
  have a: "can_start_action priv = None"
    using assms(5) by (simp add: can_start_action_def)
  have u: "finger_name_to_fp_finger (Some ''any'') = FP_FINGER_UNKNOWN"
    by (simp add: finger_name_to_fp_finger_def)
  have any: "fp_finger_to_name FP_FINGER_UNKNOWN = Some ''any''"
    by (simp add: fp_finger_to_name_def)
  have 1: "gallery = [] \<longrightarrow>
            fprint_device_verify_start S h priv invoc (Some ''any'') =
              Some (emit (DBUS_RETURN_GERROR invoc FPRINT_ERROR_NO_ENROLLED_PRINTS) priv)"
    using c a u assms(1,6) by (simp add: fprint_device_verify_start_def Let_def)
  have 2: "\<forall>p. gallery = [p] \<and> print_finger p \<noteq> FP_FINGER_UNKNOWN \<longrightarrow>
            fprint_device_verify_start S h priv invoc (Some ''any'') =
              Some (emit (SIGNAL_VERIFY_FINGER_SELECTED (fp_finger_to_name (print_finger p)))
                     (emit (DBUS_COMPLETE ''VerifyStart'' invoc)
                       (emit (FP_DEVICE_VERIFY (Some p))
                         (priv\<lparr>current_action := ACTION_VERIFY,
                               current_cancellable := Some False,
                               verify_data := Some p\<rparr>))))"
  proof (intro allI impI)
    fix p assume p: "gallery = [p] \<and> print_finger p \<noteq> FP_FINGER_UNKNOWN"
    then have g: "load_user_prints S h (dev priv) (Some (username s)) = [p]"
      using assms(6) by simp
    show "fprint_device_verify_start S h priv invoc (Some ''any'') =
              Some (emit (SIGNAL_VERIFY_FINGER_SELECTED (fp_finger_to_name (print_finger p)))
                     (emit (DBUS_COMPLETE ''VerifyStart'' invoc)
                       (emit (FP_DEVICE_VERIFY (Some p))
                         (priv\<lparr>current_action := ACTION_VERIFY,
                               current_cancellable := Some False,
                               verify_data := Some p\<rparr>))))"
      using c a u assms(1) g p by (simp add: fprint_device_verify_start_def Let_def)
  qed
  have 3: "2 \<le> length gallery \<and> FP_DEVICE_FEATURE_IDENTIFY (dev priv) \<longrightarrow>
            fprint_device_verify_start S h priv invoc (Some ''any'') =
              Some (emit (SIGNAL_VERIFY_FINGER_SELECTED (Some ''any''))
                     (emit (DBUS_COMPLETE ''VerifyStart'' invoc)
                       (emit (FP_DEVICE_IDENTIFY (Some gallery))
                         (priv\<lparr>current_action := ACTION_IDENTIFY,
                               current_cancellable := Some False,
                               identify_data := Some gallery\<rparr>))))"
  proof (intro impI)
    assume g2: "2 \<le> length gallery \<and> FP_DEVICE_FEATURE_IDENTIFY (dev priv)"
    then obtain p q rest where g: "gallery = p # q # rest"
      by (cases gallery; cases "tl gallery") auto
    then have g': "load_user_prints S h (dev priv) (Some (username s)) = p # q # rest"
      using assms(6) by simp
    show "fprint_device_verify_start S h priv invoc (Some ''any'') =
              Some (emit (SIGNAL_VERIFY_FINGER_SELECTED (Some ''any''))
                     (emit (DBUS_COMPLETE ''VerifyStart'' invoc)
                       (emit (FP_DEVICE_IDENTIFY (Some gallery))
                         (priv\<lparr>current_action := ACTION_IDENTIFY,
                               current_cancellable := Some False,
                               identify_data := Some gallery\<rparr>))))"
      using c a u any assms(1) g g' g2 by (simp add: fprint_device_verify_start_def Let_def)
  qed
  from 1 2 3 show ?thesis by blast
qed

text \<open>
  The theorem at a concrete input: a reader with identification and two prints of the
  user.
\<close>

theorem verify_start_any_witness:
  "fprint_device_verify_start ex_store
      [ex_print 1 ''alice'' 7 None, ex_print 2 ''alice'' 2 None]
      (ex_priv (Some ex_session)) (ex_call ''VerifyStart'' '':1.42'') (Some ''any'') =
     Some (emit (SIGNAL_VERIFY_FINGER_SELECTED (Some ''any''))
            (emit (DBUS_COMPLETE ''VerifyStart'' (ex_call ''VerifyStart'' '':1.42''))
              (emit (FP_DEVICE_IDENTIFY (Some [ex_print 1 ''alice'' 7 None, ex_print 2 ''alice'' 2 None]))
                ((ex_priv (Some ex_session))
                   \<lparr>current_action := ACTION_IDENTIFY,
                    current_cancellable := Some False,
                    identify_data := Some [ex_print 1 ''alice'' 7 None, ex_print 2 ''alice'' 2 None]\<rparr>))))"
proof -
  have g: "[ex_print 1 ''alice'' 7 None, ex_print 2 ''alice'' 2 None] =
        load_user_prints ex_store [ex_print 1 ''alice'' 7 None, ex_print 2 ''alice'' 2 None]
          (dev (ex_priv (Some ex_session))) (Some (username ex_session))"
    by (simp add: load_user_prints_def List.map_filter_def ex_defs)
  have s: "session (ex_priv (Some ex_session)) = Some ex_session" by (simp add: ex_priv_def)
  have i: "FP_DEVICE_FEATURE_IDENTIFY (dev (ex_priv (Some ex_session)))"
    by (simp add: ex_priv_def ex_dev_def)
  show ?thesis
    using verify_start_any[OF s _ _ _ _ g, of "ex_call ''VerifyStart'' '':1.42''"] i
    by (simp add: ex_session_def ex_call_def ex_priv_def)
qed

text \<open>
  Claim C2 as stated fails: on a reader that supports identification, a user with
  exactly one enrolled print (so with at least one) gets a verification, not an
  identification.
\<close>

theorem verify_start_any_single_print_identify_reader:
  "FP_DEVICE_FEATURE_IDENTIFY (dev (ex_priv (Some ex_session)))
   \<and> load_user_prints ex_store [ex_print 1 ''alice'' 7 None] (dev (ex_priv (Some ex_session)))
        (Some (username ex_session)) = [ex_print 1 ''alice'' 7 None]
   \<and> map_option current_action
        (fprint_device_verify_start ex_store [ex_print 1 ''alice'' 7 None]
           (ex_priv (Some ex_session)) (ex_call ''VerifyStart'' '':1.42'') (Some ''any''))
      = Some ACTION_VERIFY"
  by (simp add: fprint_device_verify_start_def load_user_prints_def List.map_filter_def
        fprint_device_check_claimed_def get_claim_state_for_invocation_def can_start_action_def
        finger_name_to_fp_finger_def FP_FINGER_UNKNOWN_def emit_def ex_defs Let_def)

subsection \<open>The root directory of the file storage\<close>

text \<open>
  Claim C5, as the code has it. On the first call (nothing cached), a
  \<open>STATE_DIRECTORY\<close> value that contains a colon gives the first entry of the list,
  that is the text before the first colon, also when that entry is empty; a value
  without a colon is taken whole when it is not empty; an unset or empty value gives
  the fixed default path. The result is cached, and a cached path is returned as it
  is.
\<close>

theorem get_storage_path_first_entry:
  "get_storage_path None state_directory =
     (let p = (case state_directory of
                 None \<Rightarrow> FILE_STORAGE_PATH
               | Some path \<Rightarrow>
                   if CHR '':'' \<in> set path then takeWhile (\<lambda>x. x \<noteq> CHR '':'') path
                   else if path = [] then FILE_STORAGE_PATH
                   else path)
      in (p, Some p))
   \<and> get_storage_path (Some cached) state_directory = (cached, Some cached)"
proof -
  have a: "snd (get_storage_path None state_directory) = Some (fst (get_storage_path None state_directory))"
    by (simp add: get_storage_path_def Let_def split: option.splits)
  have b: "get_storage_path (Some cached) state_directory = (cached, Some cached)"
    by (simp add: get_storage_path_def)
  show ?thesis
    using a b get_storage_path_eq[of state_directory]
    by (simp add: Let_def prod_eq_iff)
qed

text \<open>
  Claim C5 as stated fails: for the hint \<open>":/srv/fprint"\<close> the first non-empty entry is
  \<open>"/srv/fprint"\<close>, and the code returns the empty first entry.
\<close>

theorem get_storage_path_empty_first_entry:
  "first_non_empty_entry '':/srv/fprint'' = Some ''/srv/fprint''
   \<and> fst (get_storage_path None (Some '':/srv/fprint'')) = []"
  by (simp add: first_non_empty_entry_def get_storage_path_def g_strsplit_def)

subsection \<open>Loading a print from the file storage\<close>

text \<open>
  Claim C6. \<open>path\<close> is the file of the identity tuple (reader, finger, user). When
  reading it fails because no such file exists, the load returns \<open>-ENOENT\<close> and no
  print. When the file exists and deserializes to a print, the load returns \<open>-EINVAL\<close>
  and no print if the print's finger differs from the requested finger, or its user
  name differs from the requested user, or it is not compatible with the reader; it
  returns 0 and the print otherwise.
\<close>

theorem file_storage_print_data_load_checks:
  assumes "path = get_path_to_print E d finger
                    (fst (file_storage_get_basestore_for_username E storage_path user))"
  shows "(g_file_get_contents E path = Inl G_FILE_ERROR_NOENT \<longrightarrow>
            fst (file_storage_print_data_load E storage_path d finger user) = (- ENOENT, None))
       \<and> (\<forall>contents new.
            g_file_get_contents E path = Inr contents \<and> fp_print_deserialize E contents = Some new \<longrightarrow>
            fst (file_storage_print_data_load E storage_path d finger user) =
              (if print_finger new \<noteq> finger \<or> print_username new \<noteq> user \<or> \<not> fp_print_compatible E new d
               then (- EINVAL, None)
               else (0, Some new)))"
  using assms
  by (auto simp: file_storage_print_data_load_def load_from_file_def Let_def ENOENT_def EINVAL_def
                 G_FILE_ERROR_NOENT_def split: prod.splits sum.splits option.splits)

text \<open>
  The theorem at concrete inputs: no file for finger 3; a file under alice's finger 2
  that holds a print of bob; the matching file of alice's finger 7.
\<close>

theorem file_storage_print_data_load_checks_witness:
  "fst (file_storage_print_data_load ex_file_env None ex_dev 3 (Some ''alice'')) = (- ENOENT, None)
   \<and> fst (file_storage_print_data_load ex_file_env None ex_dev 2 (Some ''alice'')) = (- EINVAL, None)
   \<and> fst (file_storage_print_data_load ex_file_env None ex_dev 7 (Some ''alice''))
       = (0, Some (ex_print 1 ''alice'' 7 None))"
proof -
  have p: "\<And>f. f < 16 \<Longrightarrow>
      get_path_to_print ex_file_env ex_dev f
        (fst (file_storage_get_basestore_for_username ex_file_env None (Some ''alice'')))
      = ''/var/lib/fprint/alice/virtual_device_storage/0/'' @ [hex_digit f]"
    by (simp add: get_path_to_print_def get_path_to_storedir_def
          file_storage_get_basestore_for_username_def get_storage_path_def FILE_STORAGE_PATH_def
          ex_file_env_def ex_build_filename_def ex_dev_def fingername_def Let_def)
  have 3: "g_file_get_contents ex_file_env (''/var/lib/fprint/alice/virtual_device_storage/0/'' @ [hex_digit 3])
             = Inl G_FILE_ERROR_NOENT"
    by (simp add: ex_file_env_def hex_digit_def)
  have 2: "g_file_get_contents ex_file_env (''/var/lib/fprint/alice/virtual_device_storage/0/'' @ [hex_digit 2])
             = Inr ''bob-2''"
    by (simp add: ex_file_env_def hex_digit_def)
  have 7: "g_file_get_contents ex_file_env (''/var/lib/fprint/alice/virtual_device_storage/0/'' @ [hex_digit 7])
             = Inr ''alice-7''"
    by (simp add: ex_file_env_def hex_digit_def)
  have d2: "fp_print_deserialize ex_file_env ''bob-2'' = Some (ex_print 2 ''bob'' 2 None)"
    by (simp add: ex_file_env_def)
  have d7: "fp_print_deserialize ex_file_env ''alice-7'' = Some (ex_print 1 ''alice'' 7 None)"
    by (simp add: ex_file_env_def)
  have k: "fp_print_compatible ex_file_env (ex_print 1 ''alice'' 7 None) ex_dev"
    by (simp add: ex_file_env_def ex_print_def ex_dev_def)
  have a: "fst (file_storage_print_data_load ex_file_env None ex_dev 3 (Some ''alice'')) = (- ENOENT, None)"
    using file_storage_print_data_load_checks[OF refl, of ex_file_env ex_dev 3 None "Some ''alice''"]
          3 p[of 3]
    by simp
  have b: "fst (file_storage_print_data_load ex_file_env None ex_dev 2 (Some ''alice'')) = (- EINVAL, None)"
    using file_storage_print_data_load_checks[OF refl, of ex_file_env ex_dev 2 None "Some ''alice''"]
          2 d2 p[of 2]
    by (simp add: ex_print_def)
  have c: "fst (file_storage_print_data_load ex_file_env None ex_dev 7 (Some ''alice''))
       = (0, Some (ex_print 1 ''alice'' 7 None))"
    using file_storage_print_data_load_checks[OF refl, of ex_file_env ex_dev 7 None "Some ''alice''"]
          7 d7 p[of 7] k
    by (simp add: ex_print_def)
  from a b c show ?thesis by simp
qed

subsection \<open>Claim-state violations\<close>

text \<open>
  Claim C7. When the device has a session, a \<open>Claim\<close> call fails the claim-state check
  with \<open>AlreadyInUse\<close> and the handler replies with that error, whoever the caller is
  (the holder of the session included). When the device has no session, a method that
  requires the claimed state, such as \<open>VerifyStart\<close>, fails the check with
  \<open>ClaimDevice\<close> and the handler replies with that error.
\<close>

theorem claim_state_errors:
  "(session priv \<noteq> None \<and> method_name invoc = ''Claim'' \<longrightarrow>
      fprint_device_check_claimed priv invoc = Some FPRINT_ERROR_ALREADY_IN_USE
      \<and> fprint_device_claim priv invoc user uname =
          Some (emit (DBUS_RETURN_GERROR invoc FPRINT_ERROR_ALREADY_IN_USE) priv))
   \<and> (session priv = None \<and> get_claim_state_for_invocation invoc = STATE_CLAIMED \<longrightarrow>
      fprint_device_check_claimed priv invoc = Some FPRINT_ERROR_CLAIM_DEVICE
      \<and> fprint_device_verify_start S h priv invoc finger_name =
          Some (emit (DBUS_RETURN_GERROR invoc FPRINT_ERROR_CLAIM_DEVICE) priv))"
  by (auto simp: fprint_device_check_claimed_def fprint_device_claim_def
                 fprint_device_verify_start_def get_claim_state_for_invocation_def Let_def)

text \<open>
  The theorem at concrete inputs: \<open>Claim\<close> by the holder of the session and by another
  sender, and \<open>VerifyStart\<close> on an unclaimed device.
\<close>

theorem claim_state_errors_witness:
  "fprint_device_claim (ex_priv (Some ex_session)) (ex_call ''Claim'' '':1.42'') (Some ''alice'') [] =
     Some (emit (DBUS_RETURN_GERROR (ex_call ''Claim'' '':1.42'') FPRINT_ERROR_ALREADY_IN_USE)
             (ex_priv (Some ex_session)))
   \<and> fprint_device_claim (ex_priv (Some ex_session)) (ex_call ''Claim'' '':1.77'') (Some ''bob'') [] =
     Some (emit (DBUS_RETURN_GERROR (ex_call ''Claim'' '':1.77'') FPRINT_ERROR_ALREADY_IN_USE)
             (ex_priv (Some ex_session)))
   \<and> fprint_device_verify_start ex_store [] (ex_priv None) (ex_call ''VerifyStart'' '':1.42'')
        (Some ''right-index-finger'') =
     Some (emit (DBUS_RETURN_GERROR (ex_call ''VerifyStart'' '':1.42'') FPRINT_ERROR_CLAIM_DEVICE)
             (ex_priv None))"
  using claim_state_errors[where priv = "ex_priv (Some ex_session)"
          and invoc = "ex_call ''Claim'' '':1.42''" and user = "Some ''alice''" and uname = "[]"]
        claim_state_errors[where priv = "ex_priv (Some ex_session)"
          and invoc = "ex_call ''Claim'' '':1.77''" and user = "Some ''bob''" and uname = "[]"]
        claim_state_errors[where priv = "ex_priv None" and invoc = "ex_call ''VerifyStart'' '':1.42''"
          and S = ex_store and h = "[]" and finger_name = "Some ''right-index-finger''"]
  by (simp add: ex_priv_def ex_call_def get_claim_state_for_invocation_def)

subsection \<open>The default device\<close>



subsection \<open>Unrecognized finger names\<close>



subsection \<open>Deleting when nothing is enrolled\<close>

text \<open>
  Claim C10. On a device that passes the claim-state check and has no action in
  progress: \<open>DeleteEnrolledFinger\<close> with the name of a slot that the store does not
  discover for the session's user replies with \<open>NoEnrolledPrints\<close>;
  \<open>DeleteEnrolledFingers2\<close> replies with \<open>NoEnrolledPrints\<close> when the store discovers no
  print of the session's user; the legacy \<open>DeleteEnrolledFingers\<close> replies with
  \<open>NoEnrolledPrints\<close> when the store discovers no print of the acting user. In each
  case the store is unchanged and no print is deleted from the device: the device
  state is unchanged, but for the open and close calls the legacy method makes around
  the deletion when the reader was not open and has storage.
\<close>

theorem delete_without_enrolled_prints:
  assumes "fprint_device_check_claimed priv invoc = None"
      and "current_action priv = ACTION_NONE"
  shows "(\<forall>s. session priv = Some s
              \<and> finger_name_to_fp_finger finger_name \<noteq> FP_FINGER_UNKNOWN
              \<and> finger_name_to_fp_finger finger_name
                   \<notin> set (discover_prints S h (dev priv) (Some (username s))) \<longrightarrow>
            fprint_device_delete_enrolled_finger S L (priv, h, d) invoc finger_name =
              Some (emit (DBUS_RETURN_GERROR invoc FPRINT_ERROR_NO_ENROLLED_PRINTS) priv, h, d))
       \<and> (\<forall>s. session priv = Some s
              \<and> discover_prints S h (dev priv) (Some (username s)) = [] \<longrightarrow>
            fprint_device_delete_enrolled_fingers2 S L (priv, h, d) invoc =
              Some (emit (DBUS_RETURN_GERROR invoc FPRINT_ERROR_NO_ENROLLED_PRINTS) priv, h, d))
       \<and> (\<forall>u. (uname = [] \<or> u = uname)
              \<and> discover_prints S h (dev priv) (Some u) = [] \<longrightarrow>
            fprint_device_delete_enrolled_fingers S L (priv, h, d) invoc (Some u) uname =
              Some (emit (DBUS_RETURN_GERROR invoc FPRINT_ERROR_NO_ENROLLED_PRINTS)
                      (fprint_device_add_client
                         (emit (G_WARNING ''The API user should be updated to use DeleteEnrolledFingers2 method!'') priv)
                         (inv_sender invoc)),
                    h,
                    if \<not> fp_device_is_open L d \<and> FP_DEVICE_FEATURE_STORAGE (dev priv)
                    then fp_device_close_sync L (fp_device_open_sync L d) else d))"
proof -
  have st: "can_start_action priv = None"
    using assms(2) by (simp add: can_start_action_def)
  have 1: "\<forall>s. session priv = Some s
              \<and> finger_name_to_fp_finger finger_name \<noteq> FP_FINGER_UNKNOWN
              \<and> finger_name_to_fp_finger finger_name
                   \<notin> set (discover_prints S h (dev priv) (Some (username s))) \<longrightarrow>
            fprint_device_delete_enrolled_finger S L (priv, h, d) invoc finger_name =
              Some (emit (DBUS_RETURN_GERROR invoc FPRINT_ERROR_NO_ENROLLED_PRINTS) priv, h, d)"
    using assms st
    by (auto simp: fprint_device_delete_enrolled_finger_def Let_def user_has_print_enrolled_def
          delete_enrolled_fingers_none_enrolled action_reset')
  have 2: "\<forall>s. session priv = Some s
              \<and> discover_prints S h (dev priv) (Some (username s)) = [] \<longrightarrow>
            fprint_device_delete_enrolled_fingers2 S L (priv, h, d) invoc =
              Some (emit (DBUS_RETURN_GERROR invoc FPRINT_ERROR_NO_ENROLLED_PRINTS) priv, h, d)"
    using assms st
    by (auto simp: fprint_device_delete_enrolled_fingers2_def Let_def user_has_print_enrolled_def
          delete_enrolled_fingers_none_enrolled action_reset')
  have 3: "\<forall>u. (uname = [] \<or> u = uname)
              \<and> discover_prints S h (dev priv) (Some u) = [] \<longrightarrow>
            fprint_device_delete_enrolled_fingers S L (priv, h, d) invoc (Some u) uname =
              Some (emit (DBUS_RETURN_GERROR invoc FPRINT_ERROR_NO_ENROLLED_PRINTS)
                      (fprint_device_add_client
                         (emit (G_WARNING ''The API user should be updated to use DeleteEnrolledFingers2 method!'') priv)
                         (inv_sender invoc)),
                    h,
                    if \<not> fp_device_is_open L d \<and> FP_DEVICE_FEATURE_STORAGE (dev priv)
                    then fp_device_close_sync L (fp_device_open_sync L d) else d)"
  proof (intro allI impI)
    fix u assume u: "(uname = [] \<or> u = uname) \<and> discover_prints S h (dev priv) (Some u) = []"
    let ?w = "emit (G_WARNING ''The API user should be updated to use DeleteEnrolledFingers2 method!'') priv"
    have a: "can_start_action ?w = None"
      using assms(2) by (simp add: can_start_action_def)
    have c: "fprint_device_check_claimed (?w\<lparr>current_action := ACTION_DELETE\<rparr>) invoc = None"
      using assms(1) check_claimed_cong[of "?w\<lparr>current_action := ACTION_DELETE\<rparr>" priv invoc]
      by simp
    have n: "\<And>p. dev p = dev priv \<Longrightarrow> \<not> user_has_print_enrolled S h (dev p) (Some u) FP_FINGER_UNKNOWN"
      using u by (simp add: user_has_print_enrolled_def)
    have r: "current_action (fprint_device_add_client ?w (inv_sender invoc)) = ACTION_NONE"
      using assms(2) by simp
    show "fprint_device_delete_enrolled_fingers S L (priv, h, d) invoc (Some u) uname =
              Some (emit (DBUS_RETURN_GERROR invoc FPRINT_ERROR_NO_ENROLLED_PRINTS)
                      (fprint_device_add_client ?w (inv_sender invoc)),
                    h,
                    if \<not> fp_device_is_open L d \<and> FP_DEVICE_FEATURE_STORAGE (dev priv)
                    then fp_device_close_sync L (fp_device_open_sync L d) else d)"
      using u a c
      by (simp add: fprint_device_delete_enrolled_fingers_def Let_def add_client_action
            delete_enrolled_fingers_none_enrolled n action_reset'[OF r])
  qed
  show ?thesis using 1 2 3 by blast
qed

text \<open>
  The theorem at concrete inputs: the caller holds the session of alice, who has no
  print in the store, while bob has one.
\<close>

theorem delete_without_enrolled_prints_witness:
  "fprint_device_delete_enrolled_finger ex_store ex_reader
      (ex_priv (Some ex_session), [ex_print 1 ''bob'' 7 None], [ex_print 1 ''bob'' 7 None])
      (ex_call ''DeleteEnrolledFinger'' '':1.42'') (Some ''left-thumb'') =
     Some (emit (DBUS_RETURN_GERROR (ex_call ''DeleteEnrolledFinger'' '':1.42'')
                   FPRINT_ERROR_NO_ENROLLED_PRINTS) (ex_priv (Some ex_session)),
           [ex_print 1 ''bob'' 7 None], [ex_print 1 ''bob'' 7 None])
   \<and> fprint_device_delete_enrolled_fingers2 ex_store ex_reader
      (ex_priv (Some ex_session), [ex_print 1 ''bob'' 7 None], [ex_print 1 ''bob'' 7 None])
      (ex_call ''DeleteEnrolledFinger'' '':1.42'') =
     Some (emit (DBUS_RETURN_GERROR (ex_call ''DeleteEnrolledFinger'' '':1.42'')
                   FPRINT_ERROR_NO_ENROLLED_PRINTS) (ex_priv (Some ex_session)),
           [ex_print 1 ''bob'' 7 None], [ex_print 1 ''bob'' 7 None])"
proof -
  have c: "fprint_device_check_claimed (ex_priv (Some ex_session))
             (ex_call ''DeleteEnrolledFinger'' '':1.42'') = None"
    by (simp add: fprint_device_check_claimed_def get_claim_state_for_invocation_def ex_defs)
  have a: "current_action (ex_priv (Some ex_session)) = ACTION_NONE"
    by (simp add: ex_priv_def)
  have f: "finger_name_to_fp_finger (Some ''left-thumb'') = 1"
    unfolding finger_name_to_fp_finger_def range_first_last by (simp add: FINGERS_NAMES_def)
  have n: "discover_prints ex_store [ex_print 1 ''bob'' 7 None] (dev (ex_priv (Some ex_session)))
             (Some (username ex_session)) = []"
    by (simp add: ex_defs)
  show ?thesis
    using delete_without_enrolled_prints[OF c a, where finger_name = "Some ''left-thumb''"
            and S = ex_store and h = "[ex_print 1 ''bob'' 7 None]" and L = ex_reader
            and d = "[ex_print 1 ''bob'' 7 None]"] f n
    by (simp add: ex_priv_def FP_FINGER_UNKNOWN_def)
qed

subsection \<open>The flag verify-status-reported\<close>

text \<open>
  Claim C3. A status report with \<open>done = true\<close> on a session whose flag is not set
  emits the signal with \<open>done = true\<close> and sets the flag. A report with \<open>done = true\<close>
  on a session whose flag is set emits no signal: it changes nothing when the error is
  a cancellation, and only logs a warning otherwise. A report with \<open>done = false\<close>
  emits the signal and leaves the flag as it is. \<open>stoppable_action_completed\<close> clears
  a flag that is set only together with resetting the action to \<open>ACTION_NONE\<close>. Over
  any sequence of callbacks and \<open>VerifyStop\<close> calls of one operation: a flag that is set
  stays set until no verify or identify action is current, and, starting with the flag
  not set, at most one \<open>VerifyStatus\<close> signal with \<open>done = true\<close> is emitted.
\<close>

theorem verify_status_reported_once:
  "(\<forall>s. session priv = Some s \<and> \<not> verify_status_reported s \<and> verify_status_done error \<longrightarrow>
       report_verify_status priv match error =
         Some ((emit (SIGNAL_VERIFY_STATUS (verify_result_to_name match error) True) priv)
                 \<lparr>session := Some (s\<lparr>verify_status_reported := True\<rparr>)\<rparr>))
   \<and> (\<forall>s. session priv = Some s \<and> verify_status_reported s \<and> verify_status_done error \<longrightarrow>
       report_verify_status priv match error =
         Some (if error = Some G_IO_ERROR_CANCELLED then priv
               else emit (G_WARNING ''Verify status already reported. Ignoring'') priv))
   \<and> (\<forall>s. session priv = Some s \<and> \<not> verify_status_done error \<longrightarrow>
       report_verify_status priv match error =
         Some (emit (SIGNAL_VERIFY_STATUS (verify_result_to_name match error) False) priv))
   \<and> (\<forall>priv1. reported priv \<and> stoppable_action_completed priv = Some priv1 \<longrightarrow>
       reported priv1 \<or> current_action priv1 = ACTION_NONE)
   \<and> (\<forall>priv' h'. reported priv \<and> run_operation S L d es (priv, h) = Some (priv', h') \<longrightarrow>
       reported priv'
       \<or> (current_action priv' \<noteq> ACTION_VERIFY \<and> current_action priv' \<noteq> ACTION_IDENTIFY))
   \<and> (\<forall>priv' h'. session priv \<noteq> None \<and> \<not> reported priv
                 \<and> run_operation S L d es (priv, h) = Some (priv', h') \<longrightarrow>
       final_verify_status_count priv' \<le> final_verify_status_count priv + 1)"
proof -
  have 1: "\<forall>s. session priv = Some s \<and> \<not> verify_status_reported s \<and> verify_status_done error \<longrightarrow>
       report_verify_status priv match error =
         Some ((emit (SIGNAL_VERIFY_STATUS (verify_result_to_name match error) True) priv)
                 \<lparr>session := Some (s\<lparr>verify_status_reported := True\<rparr>)\<rparr>)"
    by (auto simp: report_verify_status_def verify_status_done_def Let_def split: option.splits)
  have 2: "\<forall>s. session priv = Some s \<and> verify_status_reported s \<and> verify_status_done error \<longrightarrow>
       report_verify_status priv match error =
         Some (if error = Some G_IO_ERROR_CANCELLED then priv
               else emit (G_WARNING ''Verify status already reported. Ignoring'') priv)"
    by (auto simp: report_verify_status_def verify_status_done_def Let_def split: option.splits)
  have 3: "\<forall>s. session priv = Some s \<and> \<not> verify_status_done error \<longrightarrow>
       report_verify_status priv match error =
         Some (emit (SIGNAL_VERIFY_STATUS (verify_result_to_name match error) False) priv)"
    by (auto simp: report_verify_status_def verify_status_done_def Let_def split: option.splits)
  have 4: "\<forall>priv1. reported priv \<and> stoppable_action_completed priv = Some priv1 \<longrightarrow>
       reported priv1 \<or> current_action priv1 = ACTION_NONE"
    by (auto simp: stoppable_action_completed_def reported_def split: option.splits if_splits)
  have 5: "\<forall>priv' h'. reported priv \<and> run_operation S L d es (priv, h) = Some (priv', h') \<longrightarrow>
       reported priv'
       \<or> (current_action priv' \<noteq> ACTION_VERIFY \<and> current_action priv' \<noteq> ACTION_IDENTIFY)"
    using reported_until_completion[of priv S L d es h] by blast
  have 6: "\<forall>priv' h'. session priv \<noteq> None \<and> \<not> reported priv
                 \<and> run_operation S L d es (priv, h) = Some (priv', h') \<longrightarrow>
       final_verify_status_count priv' \<le> final_verify_status_count priv + 1"
    using at_most_one_final_status[of priv S L d es h] by blast
  from 1 2 3 4 5 6 show ?thesis by blast
qed

text \<open>
  The theorem at a concrete verification: a retry report, the match, another final
  report (ignored with a warning), the completion and \<open>VerifyStop\<close>. One final status is
  emitted.
\<close>

theorem verify_status_reported_once_witness:
  "run_operation ex_store ex_reader [ex_print 1 ''alice'' 7 None] ex_verify_script
     (ex_verifying, [ex_print 1 ''alice'' 7 None]) = Some (ex_verified, [ex_print 1 ''alice'' 7 None])
   \<and> final_verify_status_count ex_verifying = 0
   \<and> final_verify_status_count ex_verified = 1
   \<and> final_verify_status_count ex_verified \<le> final_verify_status_count ex_verifying + 1
   \<and> report_verify_status ex_verifying True None =
       Some ((emit (SIGNAL_VERIFY_STATUS ''verify-match'' True) ex_verifying)
               \<lparr>session := Some (ex_session\<lparr>verify_status_reported := True\<rparr>)\<rparr>)"
proof -
  have s: "session ex_verifying = Some ex_session" "\<not> verify_status_reported ex_session"
    "\<not> reported ex_verifying" "verify_status_done None"
    by (simp_all add: ex_verifying_def ex_priv_def ex_session_def reported_def verify_status_done_def)
  have c: "final_verify_status_count ex_verifying = 0" "final_verify_status_count ex_verified = 1"
    by (simp_all add: final_verify_status_count_def ex_verifying_def ex_verified_def ex_priv_def
          is_final_verify_status_def)
  have n: "verify_result_to_name True None = ''verify-match''"
    by (simp add: verify_result_to_name_def)
  show ?thesis
    using verify_status_reported_once[where priv = ex_verifying and S = ex_store and L = ex_reader
            and d = "[ex_print 1 ''alice'' 7 None]" and es = ex_verify_script
            and h = "[ex_print 1 ''alice'' 7 None]" and error = None and match = True]
          ex_verify_run s c n
    by simp
qed

subsection \<open>The settle window of VerifyStop\<close>

text \<open>
  Claim C4. \<open>VerifyStop\<close> is called by the holder of the session after a final status
  was reported, while the device operation has not completed. The handler arms a timer
  of \<open>VERIFY_STOP_DEVICE_WAIT\<close> = 1 second and waits in the main loop. Time is not part
  of the model: the end of the window is the event of that timer firing. Whatever
  events that leave the operation running come first (\<open>pre\<close>):
  if the timer fires next, the handler cancels the operation, has not replied, and
  keeps the call pending; the reply is sent by the completion callback that follows
  the cancellation. If the operation completes next, the handler returns with the
  reply sent by that completion and without any cancellation.
\<close>

theorem verify_stop_settle_window:
  assumes s: "session priv = Some s" and snd: "inv_sender invoc = sender s"
      and si: "session_invocation s = None" and mn: "method_name invoc = ''VerifyStop''"
      and rep: "verify_status_reported s" and hc: "verify_has_completed priv = Some False"
      and ci: "current_cancel_invocation priv = None"
      and ti: "verify_stop_wait_timeout_id priv = None"
      and pre: "list_all non_completing pre"
  shows "VERIFY_STOP_DEVICE_WAIT = 1
       \<and> (\<exists>p' more.
            fprint_device_verify_stop S L d (pre @ VERIFY_STOP_WAIT_TIMEOUT # rest) (priv, h) invoc =
              Some (p', h)
            \<and> emitted p' = emitted priv @ G_TIMEOUT_ADD_SECONDS VERIFY_STOP_DEVICE_WAIT # more
                              @ [G_CANCELLABLE_CANCEL]
            \<and> list_all inert more
            \<and> current_cancellable p' = Some True
            \<and> current_cancel_invocation p' = Some invoc
            \<and> current_action p' = current_action priv
            \<and> verify_stop_wait_timeout_id p' = None
            \<and> (\<forall>ev h1. completing ev \<longrightarrow>
                  (\<exists>p'' h''. g_main_context_iteration S L d ev (p', h1) = Some (p'', h'')
                            \<and> stop_replied invoc p' p'')))
       \<and> (\<forall>ev. completing ev \<longrightarrow>
            (\<exists>p' h' more.
               fprint_device_verify_stop S L d (pre @ ev # rest) (priv, h) invoc = Some (p', h')
               \<and> emitted p' = emitted priv @ G_TIMEOUT_ADD_SECONDS VERIFY_STOP_DEVICE_WAIT # more
                                 @ [DBUS_COMPLETE ''VerifyStop'' invoc]
               \<and> list_all inert more
               \<and> current_action p' = ACTION_NONE
               \<and> current_cancellable p' = None
               \<and> current_cancel_invocation p' = None
               \<and> verify_stop_wait_timeout_id p' = None))"
proof -
  let ?p1 = "(emit (G_TIMEOUT_ADD_SECONDS VERIFY_STOP_DEVICE_WAIT) priv)
               \<lparr>verify_stop_wait_timeout_id := Some VERIFY_STOP_DEVICE_WAIT,
                current_cancel_invocation := Some invoc\<rparr>"
  have r1: "reported ?p1" using s rep by (simp add: reported_def)
  have "verify_has_completed ?p1 = verify_has_completed priv"
    by (simp add: verify_has_completed_def)
  then have h1: "verify_has_completed ?p1 = Some False"
    using hc by simp
  have t1: "verify_stop_wait_timeout_id ?p1 = Some VERIFY_STOP_DEVICE_WAIT" by simp
  have c1: "current_cancel_invocation ?p1 = Some invoc" by simp
  have e1: "emitted ?p1 = emitted priv @ [G_TIMEOUT_ADD_SECONDS VERIFY_STOP_DEVICE_WAIT]" by simp
  have a1: "current_action ?p1 = current_action priv" by simp
  have A: "\<exists>p' more.
            fprint_device_verify_stop S L d (pre @ VERIFY_STOP_WAIT_TIMEOUT # rest) (priv, h) invoc =
              Some (p', h)
            \<and> emitted p' = emitted priv @ G_TIMEOUT_ADD_SECONDS VERIFY_STOP_DEVICE_WAIT # more
                              @ [G_CANCELLABLE_CANCEL]
            \<and> list_all inert more
            \<and> current_cancellable p' = Some True
            \<and> current_cancel_invocation p' = Some invoc
            \<and> current_action p' = current_action priv
            \<and> verify_stop_wait_timeout_id p' = None
            \<and> (\<forall>ev h1. completing ev \<longrightarrow>
                  (\<exists>p'' h''. g_main_context_iteration S L d ev (p', h1) = Some (p'', h'')
                            \<and> stop_replied invoc p' p''))"
  proof -
    obtain q where q: "verify_stop_wait_loop S L d (pre @ VERIFY_STOP_WAIT_TIMEOUT # rest) (?p1, h) =
                         Some (q\<lparr>verify_stop_wait_timeout_id := None\<rparr>, h)"
        and iq: "idle_step ?p1 q"
      using wait_loop_timeout[OF r1 h1 t1 pre, of S L d rest h] by blast
    obtain more where more: "emitted q = emitted ?p1 @ more" "list_all inert more"
      using iq by (auto simp: idle_step_def calm_def)
    have cq: "current_cancel_invocation q = Some invoc" "current_action q = current_action priv"
        "session q = Some s"
      using iq s by (simp_all add: idle_step_def calm_def)
    have "verify_has_completed q = Some False"
      using idle_step_has_completed[OF iq] h1 by simp
    then obtain k where k: "current_cancellable q = Some k"
      by (auto simp: verify_has_completed_def split: if_splits)
    let ?p' = "emit G_CANCELLABLE_CANCEL
                 (q\<lparr>verify_stop_wait_timeout_id := None,
                    current_cancel_invocation := Some invoc,
                    current_cancellable := Some True\<rparr>)"
    have stop: "stoppable_action_stop
                  (q\<lparr>verify_stop_wait_timeout_id := None, current_cancel_invocation := None\<rparr>) invoc
                = Some ?p'"
      using k by (simp add: stoppable_action_stop_def)
    have res: "fprint_device_verify_stop S L d (pre @ VERIFY_STOP_WAIT_TIMEOUT # rest) (priv, h) invoc =
              Some (?p', h)"
      using verify_stop_waits[OF s snd si mn rep hc ci ti, of S L d
              "pre @ VERIFY_STOP_WAIT_TIMEOUT # rest" h] q cq(1) stop
      by simp
    have em: "emitted ?p' = emitted priv @ G_TIMEOUT_ADD_SECONDS VERIFY_STOP_DEVICE_WAIT # more
                              @ [G_CANCELLABLE_CANCEL]"
      using more(1) by simp
    have rp: "reported ?p'" using cq(3) rep by (simp add: reported_def)
    have ap: "current_action ?p' = ACTION_VERIFY \<or> current_action ?p' = ACTION_IDENTIFY"
      using cq(2) verify_has_completed_False[OF hc] by simp
    have cp: "current_cancel_invocation ?p' = Some invoc" by simp
    have later: "\<forall>ev h1. completing ev \<longrightarrow>
                  (\<exists>p'' h''. g_main_context_iteration S L d ev (?p', h1) = Some (p'', h'')
                            \<and> stop_replied invoc ?p' p'')"
    proof (intro allI impI)
      fix ev h1 assume "completing ev"
      then show "\<exists>p'' h''. g_main_context_iteration S L d ev (?p', h1) = Some (p'', h'')
                            \<and> stop_replied invoc ?p' p''"
        by (rule completing_step[OF rp ap cp])
    qed
    show ?thesis
      using res em more(2) cq(2) later
      by (intro exI[of _ ?p'] exI[of _ more]) simp
  qed
  have B: "\<forall>ev. completing ev \<longrightarrow>
            (\<exists>p' h' more.
               fprint_device_verify_stop S L d (pre @ ev # rest) (priv, h) invoc = Some (p', h')
               \<and> emitted p' = emitted priv @ G_TIMEOUT_ADD_SECONDS VERIFY_STOP_DEVICE_WAIT # more
                                 @ [DBUS_COMPLETE ''VerifyStop'' invoc]
               \<and> list_all inert more
               \<and> current_action p' = ACTION_NONE
               \<and> current_cancellable p' = None
               \<and> current_cancel_invocation p' = None
               \<and> verify_stop_wait_timeout_id p' = None)"
  proof (intro allI impI)
    fix ev assume ev: "completing ev"
    obtain q h' where q: "verify_stop_wait_loop S L d (pre @ ev # rest) (?p1, h) = Some (q, h')"
        and rq: "stop_replied invoc ?p1 q"
      using wait_loop_completes[OF r1 h1 t1 c1 pre ev, of S L d rest h] by blast
    obtain more where more: "emitted q = emitted ?p1 @ more @ [DBUS_COMPLETE ''VerifyStop'' invoc]"
        "list_all inert more"
      using rq by (auto simp: stop_replied_def)
    have f: "current_action q = ACTION_NONE" "current_cancellable q = None"
        "current_cancel_invocation q = None"
      using rq by (simp_all add: stop_replied_def)
    have res: "fprint_device_verify_stop S L d (pre @ ev # rest) (priv, h) invoc =
                 Some (q\<lparr>verify_stop_wait_timeout_id := None\<rparr>, h')"
      using verify_stop_waits[OF s snd si mn rep hc ci ti, of S L d "pre @ ev # rest" h] q f(3)
      by simp
    show "\<exists>p' h' more.
               fprint_device_verify_stop S L d (pre @ ev # rest) (priv, h) invoc = Some (p', h')
               \<and> emitted p' = emitted priv @ G_TIMEOUT_ADD_SECONDS VERIFY_STOP_DEVICE_WAIT # more
                                 @ [DBUS_COMPLETE ''VerifyStop'' invoc]
               \<and> list_all inert more
               \<and> current_action p' = ACTION_NONE
               \<and> current_cancellable p' = None
               \<and> current_cancel_invocation p' = None
               \<and> verify_stop_wait_timeout_id p' = None"
      using res more f
      by (intro exI[of _ "q\<lparr>verify_stop_wait_timeout_id := None\<rparr>"] exI[of _ h'] exI[of _ more])
         simp
  qed
  show ?thesis using A B by (simp add: VERIFY_STOP_DEVICE_WAIT_def)
qed

text \<open>
  The theorem at a concrete verification whose match was reported: a retry report
  followed by the timer, and a retry report followed by the completion.
\<close>

theorem verify_stop_settle_window_witness:
  "fprint_device_verify_stop ex_store ex_reader [ex_print 1 ''alice'' 7 None]
      [MATCH_CB None (Some (FP_DEVICE_RETRY FP_DEVICE_RETRY_GENERAL)), VERIFY_STOP_WAIT_TIMEOUT]
      (ex_matched, [ex_print 1 ''alice'' 7 None]) (ex_call ''VerifyStop'' '':1.42'') =
     Some (ex_matched
             \<lparr>current_cancellable := Some True,
              current_cancel_invocation := Some (ex_call ''VerifyStop'' '':1.42''),
              emitted := [SIGNAL_VERIFY_STATUS ''verify-match'' True,
                          G_TIMEOUT_ADD_SECONDS 1,
                          SIGNAL_VERIFY_STATUS ''verify-retry-scan'' False,
                          G_CANCELLABLE_CANCEL]\<rparr>,
           [ex_print 1 ''alice'' 7 None])
   \<and> fprint_device_verify_stop ex_store ex_reader [ex_print 1 ''alice'' 7 None]
      [MATCH_CB None (Some (FP_DEVICE_RETRY FP_DEVICE_RETRY_GENERAL)), VERIFY_CB True None]
      (ex_matched, [ex_print 1 ''alice'' 7 None]) (ex_call ''VerifyStop'' '':1.42'') =
     Some ((ex_priv (Some ex_session))
             \<lparr>emitted := [SIGNAL_VERIFY_STATUS ''verify-match'' True,
                          G_TIMEOUT_ADD_SECONDS 1,
                          SIGNAL_VERIFY_STATUS ''verify-retry-scan'' False,
                          DBUS_COMPLETE ''VerifyStop'' (ex_call ''VerifyStop'' '':1.42'')]\<rparr>,
           [ex_print 1 ''alice'' 7 None])"
proof -
  have s: "session ex_matched = Some (ex_session\<lparr>verify_status_reported := True\<rparr>)"
    by (simp add: ex_matched_def ex_priv_def)
  have snd: "inv_sender (ex_call ''VerifyStop'' '':1.42'') =
             sender (ex_session\<lparr>verify_status_reported := True\<rparr>)"
    by (simp add: ex_call_def ex_session_def)
  have si: "session_invocation (ex_session\<lparr>verify_status_reported := True\<rparr>) = None"
    by (simp add: ex_session_def)
  have mn: "method_name (ex_call ''VerifyStop'' '':1.42'') = ''VerifyStop''"
    by (simp add: ex_call_def)
  have rep: "verify_status_reported (ex_session\<lparr>verify_status_reported := True\<rparr>)"
    by simp
  have hc: "verify_has_completed ex_matched = Some False"
    by (simp add: ex_matched_def ex_priv_def verify_has_completed_def g_cancellable_is_cancelled_def)
  have ci: "current_cancel_invocation ex_matched = None"
    and ti: "verify_stop_wait_timeout_id ex_matched = None"
    by (simp_all add: ex_matched_def ex_priv_def)
  have pre: "list_all non_completing [MATCH_CB None (Some (FP_DEVICE_RETRY FP_DEVICE_RETRY_GENERAL))]"
    by (simp add: non_completing_def is_retry_def)
  have cmp: "completing (VERIFY_CB True None)"
    by (simp add: completing_def)
  have e1: "fprint_device_verify_stop ex_store ex_reader [ex_print 1 ''alice'' 7 None]
      [MATCH_CB None (Some (FP_DEVICE_RETRY FP_DEVICE_RETRY_GENERAL)), VERIFY_STOP_WAIT_TIMEOUT]
      (ex_matched, [ex_print 1 ''alice'' 7 None]) (ex_call ''VerifyStop'' '':1.42'') =
     Some (ex_matched
             \<lparr>current_cancellable := Some True,
              current_cancel_invocation := Some (ex_call ''VerifyStop'' '':1.42''),
              emitted := [SIGNAL_VERIFY_STATUS ''verify-match'' True,
                          G_TIMEOUT_ADD_SECONDS 1,
                          SIGNAL_VERIFY_STATUS ''verify-retry-scan'' False,
                          G_CANCELLABLE_CANCEL]\<rparr>,
           [ex_print 1 ''alice'' 7 None])"
    by (simp add: ex_matched_def ex_eval_defs)
  have e2: "fprint_device_verify_stop ex_store ex_reader [ex_print 1 ''alice'' 7 None]
      [MATCH_CB None (Some (FP_DEVICE_RETRY FP_DEVICE_RETRY_GENERAL)), VERIFY_CB True None]
      (ex_matched, [ex_print 1 ''alice'' 7 None]) (ex_call ''VerifyStop'' '':1.42'') =
     Some ((ex_priv (Some ex_session))
             \<lparr>emitted := [SIGNAL_VERIFY_STATUS ''verify-match'' True,
                          G_TIMEOUT_ADD_SECONDS 1,
                          SIGNAL_VERIFY_STATUS ''verify-retry-scan'' False,
                          DBUS_COMPLETE ''VerifyStop'' (ex_call ''VerifyStop'' '':1.42'')]\<rparr>,
           [ex_print 1 ''alice'' 7 None])"
    by (simp add: ex_matched_def ex_eval_defs)
  show ?thesis
    using verify_stop_settle_window[OF s snd si mn rep hc ci ti pre, where S = ex_store
            and L = ex_reader and d = "[ex_print 1 ''alice'' 7 None]" and rest = "[]"
            and h = "[ex_print 1 ''alice'' 7 None]"] cmp e1 e2
    by simp
qed

subsection \<open>Garbage collection of the on-device storage\<close>

text \<open>
  Claim C1, evaluated. The device holds an older and a newer print, neither known to
  the host. The comparison function returns \<open>julian_b - julian_a\<close>, which orders the
  newer print first, so \<open>try_delete_print\<close> deletes the newer print and keeps the older
  one, in either order of the device's list. The comment in the code (\<open>Sort older prints
  first\<close>) and the claim say that the older print is the one to delete. Lemma
  \<open>try_delete_print_deletes_a_newest\<close> above gives the general rule the code follows.
\<close>

theorem try_delete_print_deletes_newest:
  "try_delete_print ex_store ex_reader G (ex_priv (Some ex_session), [], [ex_old, ex_new], pos)
     = (True, ex_priv (Some ex_session), [ex_old], pos)
   \<and> try_delete_print ex_store ex_reader G (ex_priv (Some ex_session), [], [ex_new, ex_old], pos)
     = (True, ex_priv (Some ex_session), [ex_old], pos)"
  by (simp add: try_delete_print_def ex_reader_list ex_store_empty garbage_collect_sort_old_new garbage_collect_sort_new_old ex_reader_delete_new)

end
